theory Spec2Isabelle
  imports Main "HOL-Library.Sublist"
begin

section \<open>JavaScript strings\<close>

text \<open>
  Strings are lists of characters. \<open>String.prototype.endsWith\<close> with one argument compares
  the last \<open>searchString.length\<close> code units of the receiver with the search string, and is
  false when the receiver is shorter. \<open>String.prototype.includes\<close> looks for the search string
  at every position. A template literal is concatenation.
\<close>

definition endsWith :: "string \<Rightarrow> string \<Rightarrow> bool" where
  "endsWith s searchString =
     (let len = length s; searchLength = length searchString
      in if len < searchLength then False
         else drop (len - searchLength) s = searchString)"

primrec includes_js :: "string \<Rightarrow> string \<Rightarrow> bool" where
  "includes_js [] searchString = (searchString = [])"
| "includes_js (c # cs) searchString =
     (take (length searchString) (c # cs) = searchString \<or> includes_js cs searchString)"

text \<open>The decimal rendering of a non-negative integer, as \<open>${response.status}\<close> gives it.\<close>

fun string_of_nat :: "nat \<Rightarrow> string" where
  "string_of_nat n =
     (if n < 10 then [''0123456789'' ! n]
      else string_of_nat (n div 10) @ [''0123456789'' ! (n mod 10)])"

declare string_of_nat.simps [simp del]

section \<open>The values the adapters handle\<close>

datatype http_method = GET | HEAD

text \<open>
  A call of \<open>fetch\<close>: the URL, the method (\<open>GET\<close> when the options give none) and the
  \<open>Accept\<close> header of the options, if any.
\<close>

record request =
  req_url :: string
  req_method :: http_method
  req_accept :: "string option"

text \<open>
  What the code reads of a \<open>Response\<close>: \<open>ok\<close>, \<open>status\<close>, \<open>statusText\<close> and
  \<open>headers.get('content-type')\<close> (\<open>None\<close> is JavaScript's \<open>null\<close>); the body is the bytes
  the response would deliver.
\<close>

record response =
  ok :: bool
  status :: nat
  statusText :: string
  content_type :: "string option"
  body :: "nat list"

text \<open>
  A thrown value is an error object with a name and a message; \<open>new Error(m)\<close> has the
  name \<open>Error\<close>.
\<close>

datatype js_error = JsError string string

fun message :: "js_error \<Rightarrow> string" where
  "message (JsError n m) = m"

fun error_name :: "js_error \<Rightarrow> string" where
  "error_name (JsError n m) = n"

definition new_Error :: "string \<Rightarrow> js_error" where
  "new_Error m = JsError ''Error'' m"

text \<open>
  Instances, modules and import objects are objects of the host: each is a reference, and
  equality of references is identity of objects.
\<close>

datatype wasm_instance = InstanceRef nat

datatype wasm_module = ModuleRef nat

datatype import_object = ImportsRef nat

type_synonym array_buffer = "nat list"

text \<open>The object both instantiation primitives resolve with: \<open>{ module, instance }\<close>.\<close>

record result_object =
  instance_of :: wasm_instance
  module_of :: wasm_module

section \<open>Observable actions\<close>

text \<open>
  \<open>console.log\<close>, \<open>console.warn\<close> and \<open>console.error\<close> are the three levels. The text
  of each message is replaced by an English label of the message; the values the source
  interpolates into it or passes after it are kept, in order, as the payload. The other
  actions are the calls of host primitives, recorded when they are issued, and the call of
  the success callback.
\<close>

datatype level = LogLevel | WarnLevel | ErrorLevel

datatype payload = Str string | Num nat | Exn js_error | Null

datatype action =
    Console level string "payload list"
  | Fetch request
  | InstantiateStreaming response "import_object option"
  | ArrayBuffer response
  | Instantiate array_buffer import_object
  | SuccessCallback wasm_instance wasm_module

section \<open>Asynchronous code as a tree of interactions\<close>

text \<open>
  An \<open>async\<close> function body is a tree: it returns, throws, performs a synchronous action
  and goes on, or suspends at an \<open>await\<close> of a host promise and goes on with what the promise
  settles to (\<open>Inl\<close> a rejection, \<open>Inr\<close> a fulfilment).
\<close>

datatype 'a proc =
    Return 'a
  | Throw js_error
  | Act action "'a proc"
  | AwaitFetch request "js_error + response \<Rightarrow> 'a proc"
  | AwaitInstantiateStreaming response "import_object option" "js_error + result_object \<Rightarrow> 'a proc"
  | AwaitArrayBuffer response "js_error + array_buffer \<Rightarrow> 'a proc"
  | AwaitInstantiate array_buffer import_object "js_error + result_object \<Rightarrow> 'a proc"

text \<open>Sequencing: a throw skips the rest.\<close>

primrec bind :: "'a proc \<Rightarrow> ('a \<Rightarrow> 'b proc) \<Rightarrow> 'b proc" where
  "bind (Return x) f = f x"
| "bind (Throw e) f = Throw e"
| "bind (Act a p) f = Act a (bind p f)"
| "bind (AwaitFetch req k) f = AwaitFetch req (\<lambda>r. bind (k r) f)"
| "bind (AwaitInstantiateStreaming resp imp k) f =
     AwaitInstantiateStreaming resp imp (\<lambda>r. bind (k r) f)"
| "bind (AwaitArrayBuffer resp k) f = AwaitArrayBuffer resp (\<lambda>r. bind (k r) f)"
| "bind (AwaitInstantiate buf imp k) f = AwaitInstantiate buf imp (\<lambda>r. bind (k r) f)"

text \<open>\<open>try { p } catch (e) { h e }\<close>: a throw anywhere in \<open>p\<close> enters the handler.\<close>

primrec try_catch :: "'a proc \<Rightarrow> (js_error \<Rightarrow> 'a proc) \<Rightarrow> 'a proc" where
  "try_catch (Return x) h = Return x"
| "try_catch (Throw e) h = h e"
| "try_catch (Act a p) h = Act a (try_catch p h)"
| "try_catch (AwaitFetch req k) h = AwaitFetch req (\<lambda>r. try_catch (k r) h)"
| "try_catch (AwaitInstantiateStreaming resp imp k) h =
     AwaitInstantiateStreaming resp imp (\<lambda>r. try_catch (k r) h)"
| "try_catch (AwaitArrayBuffer resp k) h = AwaitArrayBuffer resp (\<lambda>r. try_catch (k r) h)"
| "try_catch (AwaitInstantiate buf imp k) h = AwaitInstantiate buf imp (\<lambda>r. try_catch (k r) h)"

text \<open>\<open>await\<close> of a settled promise: a rejection is thrown, a fulfilment is the value.\<close>

fun settle :: "js_error + 'a \<Rightarrow> 'a proc" where
  "settle (Inl e) = Throw e"
| "settle (Inr v) = Return v"

text \<open>
  The primitives as the source calls them. Each host call is recorded when it is issued and
  then awaited.
\<close>

definition console_log :: "string \<Rightarrow> payload list \<Rightarrow> unit proc" where
  "console_log label args = Act (Console LogLevel label args) (Return ())"

definition console_warn :: "string \<Rightarrow> payload list \<Rightarrow> unit proc" where
  "console_warn label args = Act (Console WarnLevel label args) (Return ())"

definition console_error :: "string \<Rightarrow> payload list \<Rightarrow> unit proc" where
  "console_error label args = Act (Console ErrorLevel label args) (Return ())"

definition fetch :: "request \<Rightarrow> response proc" where
  "fetch req = Act (Fetch req) (AwaitFetch req settle)"

definition instantiateStreaming :: "response \<Rightarrow> import_object option \<Rightarrow> result_object proc" where
  "instantiateStreaming resp imp =
     Act (InstantiateStreaming resp imp) (AwaitInstantiateStreaming resp imp settle)"

definition arrayBuffer :: "response \<Rightarrow> array_buffer proc" where
  "arrayBuffer resp = Act (ArrayBuffer resp) (AwaitArrayBuffer resp settle)"

definition instantiate :: "array_buffer \<Rightarrow> import_object \<Rightarrow> result_object proc" where
  "instantiate buf imp = Act (Instantiate buf imp) (AwaitInstantiate buf imp settle)"

text \<open>
  The success callback is a function of the caller. Of its behaviour the adapter sees only
  whether it returns (\<open>None\<close>) or throws (\<open>Some e\<close>).
\<close>

definition invoke ::
  "(wasm_instance \<Rightarrow> wasm_module \<Rightarrow> js_error option) \<Rightarrow> wasm_instance \<Rightarrow> wasm_module \<Rightarrow> unit proc"
where
  "invoke successCallback i m =
     Act (SuccessCallback i m)
       (case successCallback i m of None \<Rightarrow> Return () | Some e \<Rightarrow> Throw e)"

section \<open>The host\<close>

text \<open>
  The host settles each promise from its own state \<open>'w\<close> (network, caches, engine), which the
  call may change. Every promise settles: a fetch that never completes is not modelled.
\<close>

record 'w host =
  host_fetch :: "request \<Rightarrow> 'w \<Rightarrow> (js_error + response) \<times> 'w"
  host_instantiateStreaming ::
    "response \<Rightarrow> import_object option \<Rightarrow> 'w \<Rightarrow> (js_error + result_object) \<times> 'w"
  host_arrayBuffer :: "response \<Rightarrow> 'w \<Rightarrow> (js_error + array_buffer) \<times> 'w"
  host_instantiate ::
    "array_buffer \<Rightarrow> import_object \<Rightarrow> 'w \<Rightarrow> (js_error + result_object) \<times> 'w"

text \<open>
  Running one body alone, from host state \<open>w\<close>: how its promise settles, the host state
  afterwards, and the actions performed, in order.
\<close>

primrec run :: "'w host \<Rightarrow> 'a proc \<Rightarrow> 'w \<Rightarrow> (js_error + 'a) \<times> 'w \<times> action list" where
  "run h (Return x) w = (Inr x, w, [])"
| "run h (Throw e) w = (Inl e, w, [])"
| "run h (Act a p) w = (case run h p w of (r, w', tr) \<Rightarrow> (r, w', a # tr))"
| "run h (AwaitFetch req k) w = (case host_fetch h req w of (r, w') \<Rightarrow> run h (k r) w')"
| "run h (AwaitInstantiateStreaming resp imp k) w =
     (case host_instantiateStreaming h resp imp w of (r, w') \<Rightarrow> run h (k r) w')"
| "run h (AwaitArrayBuffer resp k) w =
     (case host_arrayBuffer h resp w of (r, w') \<Rightarrow> run h (k r) w')"
| "run h (AwaitInstantiate buf imp k) w =
     (case host_instantiate h buf imp w of (r, w') \<Rightarrow> run h (k r) w')"

section \<open>MediaPipeWasmAdapter, src/utils/mediapipe-wasm-adapter.ts\<close>

text \<open>\<open>createWasmConfig().locateFile\<close>: one message, in the \<open>.wasm\<close> branch only.\<close>

definition createWasmConfig_locateFile :: "string \<Rightarrow> string \<Rightarrow> string \<Rightarrow> string proc" where
  "createWasmConfig_locateFile wasmPath path pfx =
     (if endsWith path ''.wasm'' then
        (let wasmUrl = wasmPath @ ''/'' @ path
         in bind (console_log ''locating WASM file'' [Str wasmUrl]) (\<lambda>_. Return wasmUrl))
      else Return (pfx @ path))"

text \<open>
  \<open>createWasmConfig().instantiateWasm\<close>. The body of the outer \<open>try\<close> and the body of the
  inner \<open>try\<close> are named, so that a statement can speak of either attempt alone; the
  function is the source's nesting of the two. The response is handed to
  \<open>instantiateStreaming\<close> as it comes: this variant reads neither \<open>response.ok\<close> nor the
  content type.
\<close>

definition streaming_attempt ::
  "string \<Rightarrow> import_object \<Rightarrow> (wasm_instance \<Rightarrow> wasm_module \<Rightarrow> js_error option) \<Rightarrow> wasm_instance proc"
where
  "streaming_attempt wasmUrl importObject successCallback =
     bind (fetch \<lparr>req_url = wasmUrl, req_method = GET, req_accept = Some ''application/wasm''\<rparr>)
       (\<lambda>response.
     bind (instantiateStreaming response (Some importObject)) (\<lambda>wasmModule.
     bind (invoke successCallback (instance_of wasmModule) (module_of wasmModule)) (\<lambda>_.
     bind (console_log ''streaming instantiation succeeded'' []) (\<lambda>_.
     Return (instance_of wasmModule)))))"

definition fallback_attempt ::
  "string \<Rightarrow> import_object \<Rightarrow> (wasm_instance \<Rightarrow> wasm_module \<Rightarrow> js_error option) \<Rightarrow> wasm_instance proc"
where
  "fallback_attempt wasmUrl importObject successCallback =
     bind (console_log ''trying the ArrayBuffer fallback'' []) (\<lambda>_.
     bind (fetch \<lparr>req_url = wasmUrl, req_method = GET, req_accept = None\<rparr>) (\<lambda>response.
     bind (arrayBuffer response) (\<lambda>wasmBuffer.
     bind (instantiate wasmBuffer importObject) (\<lambda>wasmModule.
     bind (invoke successCallback (instance_of wasmModule) (module_of wasmModule)) (\<lambda>_.
     bind (console_log ''ArrayBuffer fallback succeeded'' []) (\<lambda>_.
     Return (instance_of wasmModule)))))))"

definition createWasmConfig_instantiateWasm ::
  "string \<Rightarrow> import_object \<Rightarrow> (wasm_instance \<Rightarrow> wasm_module \<Rightarrow> js_error option) \<Rightarrow> wasm_instance proc"
where
  "createWasmConfig_instantiateWasm wasmPath importObject successCallback =
     bind (console_log ''custom instantiateWasm called'' []) (\<lambda>_.
     (let wasmUrl = wasmPath @ ''/vision_wasm_internal.wasm''
      in try_catch (streaming_attempt wasmUrl importObject successCallback)
           (\<lambda>error.
              bind (console_error ''streaming instantiation failed'' [Exn error]) (\<lambda>_.
              try_catch (fallback_attempt wasmUrl importObject successCallback)
                (\<lambda>fallbackError.
                   bind (console_error ''ArrayBuffer fallback failed too'' [Exn fallbackError])
                     (\<lambda>_. Throw fallbackError))))))"

section \<open>MediaPipeWasmAdapter, the variant with createWasmLoader\<close>

text \<open>\<open>createWasmLoader().locateFile\<close>: a message on entry, a second one in the \<open>.wasm\<close> branch.\<close>

definition createWasmLoader_locateFile :: "string \<Rightarrow> string \<Rightarrow> string \<Rightarrow> string proc" where
  "createWasmLoader_locateFile wasmPath path pfx =
     bind (console_log ''locating file, prefix'' [Str path, Str pfx]) (\<lambda>_.
       if endsWith path ''.wasm'' then
         (let fullPath = wasmPath @ ''/'' @ path
          in bind (console_log ''WASM file path'' [Str fullPath]) (\<lambda>_. Return fullPath))
       else Return (pfx @ path))"

text \<open>
  The two checks both \<open>createWasmLoader().instantiateWasm\<close> and \<open>WasmLoader.loadWasm\<close>
  make on the response: \<open>if (!response.ok) throw new Error(`HTTP ${status}: ${statusText}`)\<close>,
  and the warning when \<open>!contentType || !contentType.includes('application/wasm')\<close>
  (\<open>null\<close> and the empty string are the falsy values of the header). \<open>shown\<close> is the
  header as the message interpolates it.
\<close>

definition http_error :: "response \<Rightarrow> js_error" where
  "http_error response =
     new_Error (''HTTP '' @ string_of_nat (status response) @ '': '' @ statusText response)"

definition mime_suspect :: "string option \<Rightarrow> bool" where
  "mime_suspect contentType =
     (case contentType of
        None \<Rightarrow> True
      | Some s \<Rightarrow> s = [] \<or> \<not> includes_js s ''application/wasm'')"

definition shown :: "string option \<Rightarrow> payload" where
  "shown contentType = (case contentType of None \<Rightarrow> Null | Some s \<Rightarrow> Str s)"

text \<open>
  \<open>createWasmLoader().instantiateWasm\<close>: one \<open>try\<close>, whose handler logs and rethrows.
\<close>

definition createWasmLoader_instantiateWasm ::
  "string \<Rightarrow> import_object \<Rightarrow> (wasm_instance \<Rightarrow> wasm_module \<Rightarrow> js_error option) \<Rightarrow> wasm_instance proc"
where
  "createWasmLoader_instantiateWasm wasmPath importObject successCallback =
     bind (console_log ''custom WASM instantiation'' []) (\<lambda>_.
     try_catch
       (let wasmFileName = ''vision_wasm_internal.wasm'';
            wasmUrl = wasmPath @ ''/'' @ wasmFileName
        in
        bind (console_log ''loading WASM'' [Str wasmUrl]) (\<lambda>_.
        bind (fetch \<lparr>req_url = wasmUrl, req_method = GET, req_accept = None\<rparr>) (\<lambda>response.
        bind (if \<not> ok response then Throw (http_error response) else Return ()) (\<lambda>_.
        (let contentType = content_type response
         in
        bind (if mime_suspect contentType
              then console_warn ''WASM MIME type may be incorrect'' [shown contentType]
              else Return ()) (\<lambda>_.
        bind (instantiateStreaming response (Some importObject)) (\<lambda>wasmModule.
        bind (invoke successCallback (instance_of wasmModule) (module_of wasmModule)) (\<lambda>_.
        bind (console_log ''WASM instantiation succeeded'' []) (\<lambda>_.
        Return (instance_of wasmModule))))))))))
       (\<lambda>error.
          bind (console_error ''WASM instantiation failed'' [Exn error]) (\<lambda>_. Throw error)))"

section \<open>WasmLoader\<close>

text \<open>
  \<open>loadWasm\<close>: \<open>instantiateStreaming\<close> is called with the response alone, and the value
  returned is \<open>wasmModule.instance\<close>.
\<close>

definition loadWasm :: "string \<Rightarrow> string \<Rightarrow> wasm_instance proc" where
  "loadWasm basePath wasmFileName =
     (let wasmUrl = basePath @ ''/'' @ wasmFileName
      in
      try_catch
        (bind (console_log ''start loading WASM file'' [Str wasmUrl]) (\<lambda>_.
         bind (fetch \<lparr>req_url = wasmUrl, req_method = GET,
                      req_accept = Some ''application/wasm''\<rparr>) (\<lambda>response.
         bind (if \<not> ok response then Throw (http_error response) else Return ()) (\<lambda>_.
         (let contentType = content_type response
          in
         bind (if mime_suspect contentType
               then console_warn ''MIME type may be incorrect'' [shown contentType]
               else Return ()) (\<lambda>_.
         bind (instantiateStreaming response None) (\<lambda>wasmModule.
         bind (console_log ''WASM file loaded'' [Str wasmFileName]) (\<lambda>_.
         Return (instance_of wasmModule)))))))))
        (\<lambda>error.
           bind (console_error ''WASM file load failed'' [Str wasmFileName, Exn error])
             (\<lambda>_. Throw error)))"

text \<open>
  \<open>validateWasmFiles\<close>. The \<open>for\<close> loop yields \<open>Some b\<close> when an iteration executes
  \<open>return b\<close> and \<open>None\<close> when it runs off the end of the list.
\<close>

primrec validate_loop :: "string \<Rightarrow> string list \<Rightarrow> bool option proc" where
  "validate_loop basePath [] = Return None"
| "validate_loop basePath (file # rest) =
     bind
       (try_catch
          (let url = basePath @ ''/'' @ file
           in
           bind (fetch \<lparr>req_url = url, req_method = HEAD, req_accept = None\<rparr>) (\<lambda>response.
             if ok response then
               (let contentType = content_type response
                in bind (console_log ''file reachable''
                           [Str file, Num (status response), shown contentType])
                     (\<lambda>_. Return None))
             else
               bind (console_error ''file not reachable'' [Str file, Num (status response)])
                 (\<lambda>_. Return (Some False))))
          (\<lambda>error.
             bind (console_error ''network error'' [Str file, Exn error])
               (\<lambda>_. Return (Some False))))
       (\<lambda>returned. case returned of
            Some b \<Rightarrow> Return (Some b)
          | None \<Rightarrow> validate_loop basePath rest)"

definition testFiles :: "string list" where
  "testFiles = [''vision_wasm_internal.wasm'', ''vision_wasm_internal.js'']"

definition validateWasmFiles :: "string \<Rightarrow> bool proc" where
  "validateWasmFiles basePath =
     bind (console_log ''validating WASM file accessibility'' []) (\<lambda>_.
     bind (validate_loop basePath testFiles) (\<lambda>returned.
       case returned of
         Some b \<Rightarrow> Return b
       | None \<Rightarrow> bind (console_log ''all WASM files validated'' []) (\<lambda>_. Return True)))"

section \<open>Promises running side by side\<close>

text \<open>
  \<open>preloadWasmFiles\<close> starts one \<open>loadWasm\<close> per file and awaits \<open>Promise.all\<close> of them.
  A started task runs synchronously to its first \<open>await\<close> (\<open>advance\<close>); from then on the
  host settles the awaited promises in some order, and each settlement lets one task run on to
  its next \<open>await\<close> (\<open>resume\<close>).
\<close>

primrec advance :: "'a proc \<Rightarrow> action list \<times> 'a proc" where
  "advance (Return x) = ([], Return x)"
| "advance (Throw e) = ([], Throw e)"
| "advance (Act a p) = (case advance p of (tr, p') \<Rightarrow> (a # tr, p'))"
| "advance (AwaitFetch req k) = ([], AwaitFetch req k)"
| "advance (AwaitInstantiateStreaming resp imp k) = ([], AwaitInstantiateStreaming resp imp k)"
| "advance (AwaitArrayBuffer resp k) = ([], AwaitArrayBuffer resp k)"
| "advance (AwaitInstantiate buf imp k) = ([], AwaitInstantiate buf imp k)"

primrec settled :: "'a proc \<Rightarrow> bool" where
  "settled (Return x) = True"
| "settled (Throw e) = True"
| "settled (Act a p) = False"
| "settled (AwaitFetch req k) = False"
| "settled (AwaitInstantiateStreaming resp imp k) = False"
| "settled (AwaitArrayBuffer resp k) = False"
| "settled (AwaitInstantiate buf imp k) = False"

primrec resume :: "'w host \<Rightarrow> 'a proc \<Rightarrow> 'w \<Rightarrow> action list \<times> 'a proc \<times> 'w" where
  "resume h (Return x) w = ([], Return x, w)"
| "resume h (Throw e) w = ([], Throw e, w)"
| "resume h (Act a p) w = (case advance (Act a p) of (tr, p') \<Rightarrow> (tr, p', w))"
| "resume h (AwaitFetch req k) w =
     (case host_fetch h req w of (r, w') \<Rightarrow>
        (case advance (k r) of (tr, p') \<Rightarrow> (tr, p', w')))"
| "resume h (AwaitInstantiateStreaming resp imp k) w =
     (case host_instantiateStreaming h resp imp w of (r, w') \<Rightarrow>
        (case advance (k r) of (tr, p') \<Rightarrow> (tr, p', w')))"
| "resume h (AwaitArrayBuffer resp k) w =
     (case host_arrayBuffer h resp w of (r, w') \<Rightarrow>
        (case advance (k r) of (tr, p') \<Rightarrow> (tr, p', w')))"
| "resume h (AwaitInstantiate buf imp k) w =
     (case host_instantiate h buf imp w of (r, w') \<Rightarrow>
        (case advance (k r) of (tr, p') \<Rightarrow> (tr, p', w')))"

text \<open>
  The order is a parameter: each number of the schedule picks one of the tasks that still
  wait. When the schedule is used up, the tasks that still wait are completed one after the
  other. Besides the actions, the settling order of the tasks is recorded.
\<close>

definition waiting :: "'a proc list \<Rightarrow> nat list" where
  "waiting ps = filter (\<lambda>i. \<not> settled (ps ! i)) [0..<length ps]"

primrec interleave ::
  "'w host \<Rightarrow> nat list \<Rightarrow> 'a proc list \<Rightarrow> 'w \<Rightarrow> action list \<times> nat list \<times> 'a proc list \<times> 'w"
where
  "interleave h [] ps w = ([], [], ps, w)"
| "interleave h (c # cs) ps w =
     (case waiting ps of
        [] \<Rightarrow> ([], [], ps, w)
      | i # rest \<Rightarrow>
          (let j = (i # rest) ! (c mod length (i # rest))
           in case resume h (ps ! j) w of (tr, p', w') \<Rightarrow>
                (case interleave h cs (ps[j := p']) w' of (tr', order, ps', w'') \<Rightarrow>
                   (tr @ tr', (if settled p' then [j] else []) @ order, ps', w''))))"

primrec finish ::
  "'w host \<Rightarrow> nat \<Rightarrow> 'a proc list \<Rightarrow> 'w
     \<Rightarrow> action list \<times> nat list \<times> (js_error + 'a) list \<times> 'w"
where
  "finish h i [] w = ([], [], [], w)"
| "finish h i (p # ps) w =
     (case run h p w of (r, w', tr) \<Rightarrow>
        (case finish h (Suc i) ps w' of (tr', order, rs, w'') \<Rightarrow>
           (tr @ tr', (if settled p then [] else [i]) @ order, r # rs, w'')))"

definition run_all ::
  "'w host \<Rightarrow> nat list \<Rightarrow> 'a proc list \<Rightarrow> 'w
     \<Rightarrow> (js_error + 'a) list \<times> nat list \<times> 'w \<times> action list"
where
  "run_all h sched ps w =
     (let started = map advance ps;
          ps0 = map snd started
      in case interleave h sched ps0 w of (tr1, order1, ps1, w1) \<Rightarrow>
           (case finish h 0 ps1 w1 of (tr2, order2, rs, w2) \<Rightarrow>
              (rs,
               filter (\<lambda>i. settled (ps0 ! i)) [0..<length ps0] @ order1 @ order2,
               w2,
               concat (map fst started) @ tr1 @ tr2)))"

text \<open>
  \<open>Promise.all\<close> rejects with the reason of the task that rejected first, and otherwise is
  fulfilled with the values in the order of the tasks.
\<close>

definition promise_all :: "(js_error + 'a) list \<Rightarrow> nat list \<Rightarrow> js_error + 'a list" where
  "promise_all rs order =
     (case List.map_filter (\<lambda>i. if i < length rs
                            then (case rs ! i of Inl e \<Rightarrow> Some e | Inr v \<Rightarrow> None)
                            else None) order of
        e # es \<Rightarrow> Inl e
      | [] \<Rightarrow> Inr (List.map_filter (\<lambda>r. case r of Inl e \<Rightarrow> None | Inr v \<Rightarrow> Some v) rs))"

text \<open>
  \<open>this.loadWasm(file).catch(err => { console.warn(..., err.message); return null })\<close>,
  \<open>null\<close> being \<open>None\<close>.
\<close>

definition wasmFiles :: "string list" where
  "wasmFiles = [''vision_wasm_internal.wasm'', ''vision_wasm_nosimd_internal.wasm'']"

definition catching :: "string \<Rightarrow> wasm_instance proc \<Rightarrow> wasm_instance option proc" where
  "catching file p =
     try_catch (bind p (\<lambda>i. Return (Some i)))
       (\<lambda>err. bind (console_warn ''preload failed'' [Str file, Str (message err)])
                 (\<lambda>_. Return None))"

definition preload_task :: "string \<Rightarrow> string \<Rightarrow> wasm_instance option proc" where
  "preload_task basePath file = catching file (loadWasm basePath file)"

text \<open>
  \<open>preloadWasmFiles\<close> has no parameter besides the loader; \<open>sched\<close> is the order in
  which the host settles. Both branches of its \<open>try\<close> fall through to the end of the
  function. Were \<open>Promise.all\<close> to reject, the source would log the error as soon as it
  does; the model lists that message after the actions of all tasks.
\<close>

definition preloadWasmFiles ::
  "string \<Rightarrow> 'w host \<Rightarrow> nat list \<Rightarrow> 'w \<Rightarrow> (js_error + unit) \<times> 'w \<times> action list"
where
  "preloadWasmFiles basePath h sched w =
     (case run_all h sched (map (preload_task basePath) wasmFiles) w of
        (rs, order, w', tr) \<Rightarrow>
          (case promise_all rs order of
             Inr loaded \<Rightarrow>
               (Inr (), w',
                Console LogLevel ''start preloading WASM files'' [] # tr
                @ [Console LogLevel ''WASM files preloaded'' []])
           | Inl error \<Rightarrow>
               (Inr (), w',
                Console LogLevel ''start preloading WASM files'' [] # tr
                @ [Console ErrorLevel ''WASM preload failed'' [Exn error]])))"

section \<open>Reading a run\<close>

text \<open>
  A promise settles after everything its body did: the timeline of a run is its actions
  followed by the settlement.
\<close>

datatype 'a moment = Performed action | Resolved 'a | Rejected js_error

definition timeline :: "(js_error + 'a) \<times> 'w \<times> action list \<Rightarrow> 'a moment list" where
  "timeline r =
     (case r of
        (Inl e, w, tr) \<Rightarrow> map Performed tr @ [Rejected e]
      | (Inr v, w, tr) \<Rightarrow> map Performed tr @ [Resolved v])"

fun is_callback :: "action \<Rightarrow> bool" where
  "is_callback (SuccessCallback i m) = True"
| "is_callback a = False"

fun is_warning :: "action \<Rightarrow> bool" where
  "is_warning (Console WarnLevel label args) = True"
| "is_warning a = False"

fun is_buffered :: "action \<Rightarrow> bool" where
  "is_buffered (ArrayBuffer resp) = True"
| "is_buffered (Instantiate buf imp) = True"
| "is_buffered a = False"

text \<open>The requests a run issued, in order, and the two kinds of request \<open>WasmLoader\<close> makes.\<close>

primrec fetched :: "action list \<Rightarrow> request list" where
  "fetched [] = []"
| "fetched (a # as) = (case a of Fetch req \<Rightarrow> req # fetched as | _ \<Rightarrow> fetched as)"

definition load_request :: "string \<Rightarrow> string \<Rightarrow> request" where
  "load_request basePath file =
     \<lparr>req_url = basePath @ ''/'' @ file, req_method = GET, req_accept = Some ''application/wasm''\<rparr>"

definition head_request :: "string \<Rightarrow> string \<Rightarrow> request" where
  "head_request basePath file =
     \<lparr>req_url = basePath @ ''/'' @ file, req_method = HEAD, req_accept = None\<rparr>"

section \<open>The validator as the specification words it\<close>

text \<open>
  A file passes its check when the \<open>HEAD\<close> request for it is answered with a success
  status; a network error or another status fails it. The files are checked in sequence, each
  from the host state the previous check left, and nothing is checked after the first
  failure: \<open>checked\<close> lists the files for which a request is made, \<open>all_pass\<close> says that
  every file passed.
\<close>

definition passes :: "'w host \<Rightarrow> string \<Rightarrow> string \<Rightarrow> 'w \<Rightarrow> bool" where
  "passes h basePath file w =
     (case host_fetch h (head_request basePath file) w of
        (Inl e, w') \<Rightarrow> False
      | (Inr response, w') \<Rightarrow> ok response)"

definition after_check :: "'w host \<Rightarrow> string \<Rightarrow> string \<Rightarrow> 'w \<Rightarrow> 'w" where
  "after_check h basePath file w = snd (host_fetch h (head_request basePath file) w)"

primrec checked :: "'w host \<Rightarrow> string \<Rightarrow> string list \<Rightarrow> 'w \<Rightarrow> string list" where
  "checked h basePath [] w = []"
| "checked h basePath (file # rest) w =
     file # (if passes h basePath file w
             then checked h basePath rest (after_check h basePath file w)
             else [])"

primrec all_pass :: "'w host \<Rightarrow> string \<Rightarrow> string list \<Rightarrow> 'w \<Rightarrow> bool" where
  "all_pass h basePath [] w = True"
| "all_pass h basePath (file # rest) w =
     (passes h basePath file w \<and> all_pass h basePath rest (after_check h basePath file w))"

text \<open>Masking: a failure is recorded as \<open>null\<close>, a loaded instance as itself.\<close>

definition mask_result :: "js_error + 'a \<Rightarrow> js_error + 'a option" where
  "mask_result r = (case r of Inl e \<Rightarrow> Inr None | Inr v \<Rightarrow> Inr (Some v))"

section \<open>Invariants of bodies and of the interleaving\<close>

text \<open>
  \<open>never P p\<close> says that \<open>p\<close> performs no action satisfying \<open>P\<close>, whatever the host
  answers; \<open>quiet p\<close> that it issues no further request. \<open>masks f p q\<close> relates a
  suspended load \<open>p\<close> to what its \<open>.catch\<close> wrapping \<open>q\<close> for the file \<open>f\<close> has become.
\<close>

primrec never :: "(action \<Rightarrow> bool) \<Rightarrow> 'a proc \<Rightarrow> bool" where
  "never P (Return x) = True"
| "never P (Throw e) = True"
| "never P (Act a p) = (\<not> P a \<and> never P p)"
| "never P (AwaitFetch req k) = (\<forall>r. never P (k r))"
| "never P (AwaitInstantiateStreaming resp imp k) = (\<forall>r. never P (k r))"
| "never P (AwaitArrayBuffer resp k) = (\<forall>r. never P (k r))"
| "never P (AwaitInstantiate buf imp k) = (\<forall>r. never P (k r))"

primrec quiet :: "'a proc \<Rightarrow> bool" where
  "quiet (Return x) = True"
| "quiet (Throw e) = True"
| "quiet (Act a p) = ((\<forall>req. a \<noteq> Fetch req) \<and> quiet p)"
| "quiet (AwaitFetch req k) = (\<forall>r. quiet (k r))"
| "quiet (AwaitInstantiateStreaming resp imp k) = (\<forall>r. quiet (k r))"
| "quiet (AwaitArrayBuffer resp k) = (\<forall>r. quiet (k r))"
| "quiet (AwaitInstantiate buf imp k) = (\<forall>r. quiet (k r))"

definition preload_warning :: "string \<Rightarrow> js_error \<Rightarrow> action" where
  "preload_warning file e = Console WarnLevel ''preload failed'' [Str file, Str (message e)]"

definition masks :: "string \<Rightarrow> wasm_instance proc \<Rightarrow> wasm_instance option proc \<Rightarrow> bool" where
  "masks f p q =
     ((\<exists>e. p = Throw e \<and> q = Return None)
      \<or> ((\<forall>e. p \<noteq> Throw e) \<and> (\<forall>a p'. p \<noteq> Act a p') \<and> q = catching f p))"

definition masks_all ::
  "string list \<Rightarrow> wasm_instance proc list \<Rightarrow> wasm_instance option proc list \<Rightarrow> bool"
where
  "masks_all fs ps qs =
     (length ps = length fs \<and> length qs = length fs
      \<and> (\<forall>i < length fs. masks (fs ! i) (ps ! i) (qs ! i)))"

section \<open>A sample host\<close>

text \<open>
  A host for concrete runs. Its state is the list of outcomes the network will give to the
  coming fetches, in order, and the next free object reference. Compiling accepts bytes that
  start with the WebAssembly magic number; the streaming primitive of a strict host also
  insists on an \<open>ok\<close> response of content type \<open>application/wasm\<close>.
\<close>

record world =
  network :: "(js_error + response) list"
  next_ref :: nat

definition wasm_magic :: "nat list" where
  "wasm_magic = [0, 97, 115, 109]"

definition compile :: "nat list \<Rightarrow> js_error \<Rightarrow> world \<Rightarrow> (js_error + result_object) \<times> world" where
  "compile bytes failure w =
     (if take 4 bytes = wasm_magic
      then (Inr \<lparr>instance_of = InstanceRef (next_ref w), module_of = ModuleRef (next_ref w)\<rparr>,
            w\<lparr>next_ref := Suc (next_ref w)\<rparr>)
      else (Inl failure, w))"

definition sample_host :: "bool \<Rightarrow> world host" where
  "sample_host strict =
     \<lparr>host_fetch = (\<lambda>req w. case network w of
          [] \<Rightarrow> (Inl (JsError ''TypeError'' ''Failed to fetch''), w)
        | r # rs \<Rightarrow> (r, w\<lparr>network := rs\<rparr>)),
      host_instantiateStreaming = (\<lambda>resp imp w.
          if strict \<and> \<not> (ok resp \<and> content_type resp = Some ''application/wasm'')
          then (Inl (JsError ''TypeError'' ''Incorrect response''), w)
          else compile (body resp) (JsError ''CompileError'' ''bad magic'') w),
      host_arrayBuffer = (\<lambda>resp w. (Inr (body resp), w)),
      host_instantiate = (\<lambda>buf imp w. compile buf (JsError ''CompileError'' ''bad magic'') w)\<rparr>"

definition accepting :: "wasm_instance \<Rightarrow> wasm_module \<Rightarrow> js_error option" where
  "accepting i m = None"

definition wasm_file :: "string option \<Rightarrow> response" where
  "wasm_file ct = \<lparr>ok = True, status = 200, statusText = ''OK'', content_type = ct,
                   body = [0, 97, 115, 109, 1, 0, 0, 0]\<rparr>"

definition page_404 :: response where
  "page_404 = \<lparr>ok = False, status = 404, statusText = ''Not Found'',
                 content_type = Some ''text/html'', body = [60, 33, 68, 79]\<rparr>"

text \<open>
  Host states: the binary served as \<open>application/wasm\<close>; served as
  \<open>application/octet-stream\<close>; missing (a 404 page each time); served without a content
  type; and a 404 page followed by a good answer.
\<close>

definition good_world :: world where
  "good_world = \<lparr>network = [Inr (wasm_file (Some ''application/wasm'')),
                            Inr (wasm_file (Some ''application/wasm''))], next_ref = 7\<rparr>"

definition octet_world :: world where
  "octet_world =
     \<lparr>network = [Inr (wasm_file (Some ''application/octet-stream'')),
                 Inr (wasm_file (Some ''application/octet-stream''))],
      next_ref = 0\<rparr>"

definition missing_world :: world where
  "missing_world = \<lparr>network = [Inr page_404, Inr page_404], next_ref = 0\<rparr>"

definition lenient_world :: world where
  "lenient_world = \<lparr>network = [Inr (wasm_file None), Inr (wasm_file None)], next_ref = 3\<rparr>"

definition half_world :: world where
  "half_world = \<lparr>network = [Inr page_404, Inr (wasm_file None)], next_ref = 0\<rparr>"

section \<open>Running sequences and handlers\<close>

lemma run_bind:
  "run h (bind p f) w =
     (case run h p w of
        (Inl e, w', tr) \<Rightarrow> (Inl e, w', tr)
      | (Inr x, w', tr) \<Rightarrow> (case run h (f x) w' of (r, w'', tr') \<Rightarrow> (r, w'', tr @ tr')))"
  by (induction p arbitrary: w) (auto split: prod.splits sum.splits)

lemma run_try_catch:
  "run h (try_catch p handler) w =
     (case run h p w of
        (Inl e, w', tr) \<Rightarrow> (case run h (handler e) w' of (r, w'', tr') \<Rightarrow> (r, w'', tr @ tr'))
      | (Inr x, w', tr) \<Rightarrow> (Inr x, w', tr))"
  by (induction p arbitrary: w) (auto split: prod.splits sum.splits)

lemmas prims = console_log_def console_warn_def console_error_def fetch_def
  instantiateStreaming_def arrayBuffer_def instantiate_def invoke_def

lemmas sample_defs = sample_host_def compile_def wasm_magic_def accepting_def wasm_file_def
  page_404_def octet_world_def missing_world_def good_world_def

lemmas sample_defs2 = sample_defs lenient_world_def

lemma fetched_append: "fetched (xs @ ys) = fetched xs @ fetched ys"
  by (induction xs) (auto split: action.splits)

lemma never_run: "never P p \<Longrightarrow> filter P (snd (snd (run h p w))) = []"
proof (induction p arbitrary: w)
  case (Act a p)
  obtain r w1 tr where run: "run h p w = (r, w1, tr)" by (cases "run h p w")
  have "filter P tr = []" using Act.IH [of w] Act.prems run by simp
  with Act.prems run show ?case by simp
qed (auto split: prod.splits)

section \<open>One task alone\<close>

text \<open>
  The interleaving of a single task is its sequential run, whatever the schedule.
\<close>

lemma run_advance:
  "run h p w =
     (case advance p of (tr, p') \<Rightarrow>
        (case run h p' w of (r, w', tr') \<Rightarrow> (r, w', tr @ tr')))"
  by (induction p arbitrary: w) (auto split: prod.splits)

lemma run_resume:
  assumes "resume h p w = (tr, p', w')"
  shows "run h p w = (case run h p' w' of (r, w'', tr') \<Rightarrow> (r, w'', tr @ tr'))"
proof (cases p)
  case (Act a p0)
  with assms have "advance p = (tr, p')" "w' = w" by (auto split: prod.splits)
  then show ?thesis using run_advance [of h p w] by simp
next
  case (AwaitFetch req k)
  obtain x w1 where hf: "host_fetch h req w = (x, w1)" by (cases "host_fetch h req w")
  with assms AwaitFetch have "advance (k x) = (tr, p')" "w' = w1" by (auto split: prod.splits)
  then show ?thesis using run_advance [of h "k x" w1] AwaitFetch hf by simp
next
  case (AwaitInstantiateStreaming resp imp k)
  obtain x w1 where hf: "host_instantiateStreaming h resp imp w = (x, w1)"
    by (cases "host_instantiateStreaming h resp imp w")
  with assms AwaitInstantiateStreaming have "advance (k x) = (tr, p')" "w' = w1"
    by (auto split: prod.splits)
  then show ?thesis using run_advance [of h "k x" w1] AwaitInstantiateStreaming hf by simp
next
  case (AwaitArrayBuffer resp k)
  obtain x w1 where hf: "host_arrayBuffer h resp w = (x, w1)"
    by (cases "host_arrayBuffer h resp w")
  with assms AwaitArrayBuffer have "advance (k x) = (tr, p')" "w' = w1"
    by (auto split: prod.splits)
  then show ?thesis using run_advance [of h "k x" w1] AwaitArrayBuffer hf by simp
next
  case (AwaitInstantiate buf imp k)
  obtain x w1 where hf: "host_instantiate h buf imp w = (x, w1)"
    by (cases "host_instantiate h buf imp w")
  with assms AwaitInstantiate have "advance (k x) = (tr, p')" "w' = w1"
    by (auto split: prod.splits)
  then show ?thesis using run_advance [of h "k x" w1] AwaitInstantiate hf by simp
qed (use assms in auto)

lemma waiting_in_range: "j \<in> set (waiting ps) \<Longrightarrow> j < length ps"
  by (simp add: waiting_def)

lemma interleave_single:
  "interleave h sched [p] w = (tr, order, ps', w') \<Longrightarrow>
     \<exists>p'. ps' = [p'] \<and> run h p w = (case run h p' w' of (r, w'', tr') \<Rightarrow> (r, w'', tr @ tr'))"
proof (induction sched arbitrary: p w tr order ps' w')
  case Nil
  then show ?case by (auto split: prod.splits)
next
  case (Cons c cs)
  show ?case
  proof (cases "settled p")
    case True
    with Cons.prems show ?thesis by (auto simp: waiting_def split: prod.splits)
  next
    case False
    obtain t1 p1 w1 where res: "resume h p w = (t1, p1, w1)" by (cases "resume h p w")
    obtain t2 o2 ps2 w2 where rec: "interleave h cs [p1] w1 = (t2, o2, ps2, w2)"
      by (cases "interleave h cs [p1] w1")
    from Cons.prems False res rec have out: "tr = t1 @ t2" "ps' = ps2" "w' = w2"
      by (auto simp: waiting_def)
    from Cons.IH [OF rec] obtain p' where p': "ps2 = [p']"
      and r1: "run h p1 w1 = (case run h p' w2 of (r, w'', tr') \<Rightarrow> (r, w'', t2 @ tr'))"
      by blast
    from run_resume [OF res] r1 out p' show ?thesis by (auto split: prod.splits)
  qed
qed

lemma run_all_single:
  "run h p w = (r, w', tr) \<Longrightarrow>
     fst (run_all h sched [p] w) = [r]
     \<and> fst (snd (snd (run_all h sched [p] w))) = w'
     \<and> snd (snd (snd (run_all h sched [p] w))) = tr"
proof -
  assume run: "run h p w = (r, w', tr)"
  obtain t0 p0 where adv: "advance p = (t0, p0)" by (cases "advance p")
  obtain t1 o1 ps1 w1 where il: "interleave h sched [p0] w = (t1, o1, ps1, w1)"
    by (cases "interleave h sched [p0] w")
  from interleave_single [OF il] obtain p1 where p1: "ps1 = [p1]"
    and r1: "run h p0 w = (case run h p1 w1 of (r, w'', tr') \<Rightarrow> (r, w'', t1 @ tr'))"
    by blast
  obtain r2 w2 t2 where r2: "run h p1 w1 = (r2, w2, t2)" by (cases "run h p1 w1")
  from run run_advance [of h p w] adv r1 r2
  have "r = r2" "w' = w2" "tr = t0 @ t1 @ t2" by simp_all
  with adv il p1 r2 show ?thesis by (simp add: run_all_def Let_def)
qed

section \<open>The location resolver\<close>

lemma endsWith_suffix: "endsWith s t = suffix t s"
proof
  assume "endsWith s t"
  then have le: "length t \<le> length s" and eq: "drop (length s - length t) s = t"
    by (auto simp: endsWith_def Let_def split: if_splits)
  have "s = take (length s - length t) s @ t"
    using eq by (metis append_take_drop_id)
  then show "suffix t s" by (rule suffixI)
next
  assume "suffix t s"
  then obtain p where "s = p @ t" by (auto simp: suffix_def)
  then show "endsWith s t" by (simp add: endsWith_def)
qed

text \<open>
  C1. For every filename and default prefix, both \<open>locateFile\<close> functions return
  \<open>wasmPath + "/" + filename\<close> when the filename ends with \<open>.wasm\<close>, whatever the prefix, and
  \<open>prefix + filename\<close> otherwise; they never throw and leave the host untouched.
\<close>

theorem locateFile_resolves:
  "fst (run h (createWasmConfig_locateFile wasmPath path pfx) w) =
     Inr (if suffix ''.wasm'' path then wasmPath @ ''/'' @ path else pfx @ path)
   \<and> fst (run h (createWasmLoader_locateFile wasmPath path pfx) w) =
     Inr (if suffix ''.wasm'' path then wasmPath @ ''/'' @ path else pfx @ path)
   \<and> fst (snd (run h (createWasmConfig_locateFile wasmPath path pfx) w)) = w
   \<and> fst (snd (run h (createWasmLoader_locateFile wasmPath path pfx) w)) = w"
  by (simp add: createWasmConfig_locateFile_def createWasmLoader_locateFile_def
      console_log_def endsWith_suffix Let_def)

theorem locateFile_resolves_witness:
  "fst (run (sample_host True)
          (createWasmConfig_locateFile ''/wasm'' ''vision_wasm_internal.wasm'' ''https://cdn/'')
          good_world) = Inr ''/wasm/vision_wasm_internal.wasm''
   \<and> fst (run (sample_host True)
          (createWasmLoader_locateFile ''/wasm'' ''vision_wasm_internal.js'' ''https://cdn/'')
          good_world) = Inr ''https://cdn/vision_wasm_internal.js''"
  using locateFile_resolves [of "sample_host True" "''/wasm''" "''vision_wasm_internal.wasm''"
      "''https://cdn/''" good_world]
    locateFile_resolves [of "sample_host True" "''/wasm''" "''vision_wasm_internal.js''"
      "''https://cdn/''" good_world]
  by (simp add: endsWith_suffix [symmetric] endsWith_def)

section \<open>What a run of each instantiator is\<close>

lemma streaming_attempt_ok:
  assumes "host_fetch h \<lparr>req_url = url, req_method = GET, req_accept = Some ''application/wasm''\<rparr> w
             = (Inr response, w1)"
      and "host_instantiateStreaming h response (Some importObject) w1 = (Inr wasmModule, w2)"
      and "successCallback (instance_of wasmModule) (module_of wasmModule) = None"
  shows "run h (streaming_attempt url importObject successCallback) w =
           (Inr (instance_of wasmModule), w2,
            [Fetch \<lparr>req_url = url, req_method = GET, req_accept = Some ''application/wasm''\<rparr>,
             InstantiateStreaming response (Some importObject),
             SuccessCallback (instance_of wasmModule) (module_of wasmModule),
             Console LogLevel ''streaming instantiation succeeded'' []])"
  using assms by (simp add: streaming_attempt_def prims)

lemma fallback_attempt_ok:
  assumes "host_fetch h \<lparr>req_url = url, req_method = GET, req_accept = None\<rparr> w = (Inr response, w1)"
      and "host_arrayBuffer h response w1 = (Inr wasmBuffer, w2)"
      and "host_instantiate h wasmBuffer importObject w2 = (Inr wasmModule, w3)"
      and "successCallback (instance_of wasmModule) (module_of wasmModule) = None"
  shows "run h (fallback_attempt url importObject successCallback) w =
           (Inr (instance_of wasmModule), w3,
            [Console LogLevel ''trying the ArrayBuffer fallback'' [],
             Fetch \<lparr>req_url = url, req_method = GET, req_accept = None\<rparr>,
             ArrayBuffer response,
             Instantiate wasmBuffer importObject,
             SuccessCallback (instance_of wasmModule) (module_of wasmModule),
             Console LogLevel ''ArrayBuffer fallback succeeded'' []])"
  using assms by (simp add: fallback_attempt_def prims)

lemma streaming_attempt_starts_with_fetch:
  "\<exists>rest. snd (snd (run h (streaming_attempt url importObject successCallback) w)) =
     Fetch \<lparr>req_url = url, req_method = GET, req_accept = Some ''application/wasm''\<rparr> # rest"
  by (simp add: streaming_attempt_def fetch_def split: prod.splits)

lemma createWasmConfig_instantiateWasm_run:
  "run h (createWasmConfig_instantiateWasm wasmPath importObject successCallback) w =
     (case run h (streaming_attempt (wasmPath @ ''/vision_wasm_internal.wasm'') importObject successCallback) w of
        (Inr i, w1, tr1) \<Rightarrow> (Inr i, w1, Console LogLevel ''custom instantiateWasm called'' [] # tr1)
      | (Inl error, w1, tr1) \<Rightarrow>
          (case run h (fallback_attempt (wasmPath @ ''/vision_wasm_internal.wasm'') importObject successCallback) w1 of
             (Inr i, w2, tr2) \<Rightarrow>
               (Inr i, w2, Console LogLevel ''custom instantiateWasm called'' [] # tr1
                    @ Console ErrorLevel ''streaming instantiation failed'' [Exn error] # tr2)
           | (Inl fallbackError, w2, tr2) \<Rightarrow>
               (Inl fallbackError, w2, Console LogLevel ''custom instantiateWasm called'' [] # tr1
                    @ Console ErrorLevel ''streaming instantiation failed'' [Exn error] # tr2
                    @ [Console ErrorLevel ''ArrayBuffer fallback failed too'' [Exn fallbackError]])))"
  by (simp add: createWasmConfig_instantiateWasm_def Let_def run_try_catch
      console_log_def console_error_def split: prod.splits sum.splits)

lemma createWasmLoader_instantiateWasm_run:
  "run h (createWasmLoader_instantiateWasm wasmPath importObject successCallback) w =
     (let req = \<lparr>req_url = wasmPath @ ''/vision_wasm_internal.wasm'', req_method = GET,
                 req_accept = None\<rparr>;
          pre = [Console LogLevel ''custom WASM instantiation'' [],
                 Console LogLevel ''loading WASM'' [Str (wasmPath @ ''/vision_wasm_internal.wasm'')],
                 Fetch req]
      in case host_fetch h req w of
           (Inl e, w1) \<Rightarrow>
             (Inl e, w1, pre @ [Console ErrorLevel ''WASM instantiation failed'' [Exn e]])
         | (Inr response, w1) \<Rightarrow>
             if \<not> ok response then
               (Inl (http_error response), w1,
                pre @ [Console ErrorLevel ''WASM instantiation failed'' [Exn (http_error response)]])
             else
               (let pre2 = pre
                      @ (if mime_suspect (content_type response)
                         then [Console WarnLevel ''WASM MIME type may be incorrect''
                                 [shown (content_type response)]]
                         else [])
                      @ [InstantiateStreaming response (Some importObject)]
                in case host_instantiateStreaming h response (Some importObject) w1 of
                     (Inl e, w2) \<Rightarrow>
                       (Inl e, w2, pre2 @ [Console ErrorLevel ''WASM instantiation failed'' [Exn e]])
                   | (Inr wasmModule, w2) \<Rightarrow>
                       (case successCallback (instance_of wasmModule) (module_of wasmModule) of
                          Some e \<Rightarrow>
                            (Inl e, w2,
                             pre2 @ [SuccessCallback (instance_of wasmModule) (module_of wasmModule),
                                     Console ErrorLevel ''WASM instantiation failed'' [Exn e]])
                        | None \<Rightarrow>
                            (Inr (instance_of wasmModule), w2,
                             pre2 @ [SuccessCallback (instance_of wasmModule) (module_of wasmModule),
                                     Console LogLevel ''WASM instantiation succeeded'' []]))))"
  by (simp add: createWasmLoader_instantiateWasm_def Let_def prims
      split: prod.splits sum.splits option.splits)

lemma loadWasm_run:
  "run h (loadWasm basePath wasmFileName) w =
     (let req = \<lparr>req_url = basePath @ ''/'' @ wasmFileName, req_method = GET,
                 req_accept = Some ''application/wasm''\<rparr>;
          pre = [Console LogLevel ''start loading WASM file'' [Str (basePath @ ''/'' @ wasmFileName)],
                 Fetch req];
          failed = (\<lambda>e. [Console ErrorLevel ''WASM file load failed'' [Str wasmFileName, Exn e]])
      in case host_fetch h req w of
           (Inl e, w1) \<Rightarrow> (Inl e, w1, pre @ failed e)
         | (Inr response, w1) \<Rightarrow>
             if \<not> ok response then
               (Inl (http_error response), w1, pre @ failed (http_error response))
             else
               (let pre2 = pre
                      @ (if mime_suspect (content_type response)
                         then [Console WarnLevel ''MIME type may be incorrect''
                                 [shown (content_type response)]]
                         else [])
                      @ [InstantiateStreaming response None]
                in case host_instantiateStreaming h response None w1 of
                     (Inl e, w2) \<Rightarrow> (Inl e, w2, pre2 @ failed e)
                   | (Inr wasmModule, w2) \<Rightarrow>
                       (Inr (instance_of wasmModule), w2,
                        pre2 @ [Console LogLevel ''WASM file loaded'' [Str wasmFileName]])))"
  by (simp add: loadWasm_def Let_def prims split: prod.splits sum.splits option.splits)

lemma createWasmConfig_streaming_success:
  assumes "host_fetch h \<lparr>req_url = wasmPath @ ''/vision_wasm_internal.wasm'', req_method = GET,
                         req_accept = Some ''application/wasm''\<rparr> w = (Inr response, w1)"
      and "host_instantiateStreaming h response (Some importObject) w1 = (Inr wasmModule, w2)"
      and "successCallback (instance_of wasmModule) (module_of wasmModule) = None"
  shows "run h (createWasmConfig_instantiateWasm wasmPath importObject successCallback) w =
           (Inr (instance_of wasmModule), w2,
            [Console LogLevel ''custom instantiateWasm called'' [],
             Fetch \<lparr>req_url = wasmPath @ ''/vision_wasm_internal.wasm'',
                    req_method = GET, req_accept = Some ''application/wasm''\<rparr>,
             InstantiateStreaming response (Some importObject),
             SuccessCallback (instance_of wasmModule) (module_of wasmModule),
             Console LogLevel ''streaming instantiation succeeded'' []])"
proof -
  have "run h (streaming_attempt (wasmPath @ ''/vision_wasm_internal.wasm'') importObject
          successCallback) w =
        (Inr (instance_of wasmModule), w2,
         [Fetch \<lparr>req_url = wasmPath @ ''/vision_wasm_internal.wasm'', req_method = GET,
                 req_accept = Some ''application/wasm''\<rparr>,
          InstantiateStreaming response (Some importObject),
          SuccessCallback (instance_of wasmModule) (module_of wasmModule),
          Console LogLevel ''streaming instantiation succeeded'' []])"
    using assms by (rule streaming_attempt_ok)
  then show ?thesis
    by (simp add: createWasmConfig_instantiateWasm_run)
qed

lemma createWasmLoader_streaming_success:
  assumes "host_fetch h \<lparr>req_url = wasmPath @ ''/vision_wasm_internal.wasm'', req_method = GET,
                         req_accept = None\<rparr> w = (Inr response, w1)"
      and "ok response"
      and "host_instantiateStreaming h response (Some importObject) w1 = (Inr wasmModule, w2)"
      and "successCallback (instance_of wasmModule) (module_of wasmModule) = None"
  shows "run h (createWasmLoader_instantiateWasm wasmPath importObject successCallback) w =
           (Inr (instance_of wasmModule), w2,
            [Console LogLevel ''custom WASM instantiation'' [],
             Console LogLevel ''loading WASM'' [Str (wasmPath @ ''/vision_wasm_internal.wasm'')],
             Fetch \<lparr>req_url = wasmPath @ ''/vision_wasm_internal.wasm'', req_method = GET,
                    req_accept = None\<rparr>]
            @ (if mime_suspect (content_type response)
               then [Console WarnLevel ''WASM MIME type may be incorrect''
                       [shown (content_type response)]]
               else [])
            @ [InstantiateStreaming response (Some importObject),
               SuccessCallback (instance_of wasmModule) (module_of wasmModule),
               Console LogLevel ''WASM instantiation succeeded'' []])"
  using assms by (simp add: createWasmLoader_instantiateWasm_run Let_def)

lemma createWasmLoader_no_fallback:
  "fetched (snd (snd (run h (createWasmLoader_instantiateWasm wasmPath importObject
      successCallback) w))) =
     [\<lparr>req_url = wasmPath @ ''/vision_wasm_internal.wasm'', req_method = GET, req_accept = None\<rparr>]
   \<and> filter is_buffered (snd (snd (run h (createWasmLoader_instantiateWasm wasmPath importObject
      successCallback) w))) = []"
  by (simp add: createWasmLoader_instantiateWasm_run Let_def
      split: prod.splits sum.splits option.splits)

lemma createWasmConfig_never_warns:
  "filter is_warning (snd (snd (run h (createWasmConfig_instantiateWasm wasmPath importObject
      successCallback) w))) = []"
  by (rule never_run)
    (simp add: createWasmConfig_instantiateWasm_def streaming_attempt_def fallback_attempt_def
      prims Let_def split_sum_all split: option.splits)

lemma createWasmConfig_reaches_streaming:
  assumes "host_fetch h \<lparr>req_url = wasmPath @ ''/vision_wasm_internal.wasm'', req_method = GET,
                         req_accept = Some ''application/wasm''\<rparr> w = (Inr response, w1)"
  shows "\<exists>after. snd (snd (run h (createWasmConfig_instantiateWasm wasmPath importObject
            successCallback) w)) =
           [Console LogLevel ''custom instantiateWasm called'' [],
            Fetch \<lparr>req_url = wasmPath @ ''/vision_wasm_internal.wasm'', req_method = GET,
                   req_accept = Some ''application/wasm''\<rparr>,
            InstantiateStreaming response (Some importObject)] @ after"
  using assms
  by (simp add: createWasmConfig_instantiateWasm_def streaming_attempt_def fallback_attempt_def
      prims Let_def split: prod.splits sum.splits option.splits)

section \<open>The streaming path\<close>

text \<open>
  The source reports a callback that throws as a failure of the streaming path, and goes on
  to the fallback.
\<close>

lemma callback_throw_fails_streaming:
  assumes "host_fetch h \<lparr>req_url = url, req_method = GET, req_accept = Some ''application/wasm''\<rparr> w
             = (Inr response, w1)"
      and "host_instantiateStreaming h response (Some importObject) w1 = (Inr wasmModule, w2)"
      and "successCallback (instance_of wasmModule) (module_of wasmModule) = Some e"
  shows "run h (streaming_attempt url importObject successCallback) w =
           (Inl e, w2,
            [Fetch \<lparr>req_url = url, req_method = GET, req_accept = Some ''application/wasm''\<rparr>,
             InstantiateStreaming response (Some importObject),
             SuccessCallback (instance_of wasmModule) (module_of wasmModule)])"
  using assms by (simp add: streaming_attempt_def prims)

text \<open>
  C2. In both variants of \<open>instantiateWasm\<close>: when the streaming path succeeds (the fetch is
  fulfilled, with an \<open>ok\<close> response where the variant checks it, the streaming
  instantiation is fulfilled, and the callback returns), the success callback is invoked
  exactly once, with the instance and the compiled module of the instantiation result, before
  the promise resolves, and the promise resolves with that same instance.
\<close>

theorem streaming_success_callback_once:
  assumes "host_fetch h \<lparr>req_url = wasmPath @ ''/vision_wasm_internal.wasm'', req_method = GET,
                         req_accept = Some ''application/wasm''\<rparr> w = (Inr response, w1)"
      and "host_instantiateStreaming h response (Some importObject) w1 = (Inr wasmModule, w2)"
      and "successCallback (instance_of wasmModule) (module_of wasmModule) = None"
      and "host_fetch h' \<lparr>req_url = wasmPath @ ''/vision_wasm_internal.wasm'', req_method = GET,
                          req_accept = None\<rparr> w' = (Inr response', w1')"
      and "ok response'"
      and "host_instantiateStreaming h' response' (Some importObject) w1' = (Inr wasmModule', w2')"
      and "successCallback (instance_of wasmModule') (module_of wasmModule') = None"
  shows "(\<exists>before after.
            timeline (run h (createWasmConfig_instantiateWasm wasmPath importObject successCallback) w)
              = map Performed before
                @ [Performed (SuccessCallback (instance_of wasmModule) (module_of wasmModule))]
                @ map Performed after @ [Resolved (instance_of wasmModule)]
            \<and> filter is_callback (before @ after) = [])
       \<and> (\<exists>before after.
            timeline (run h' (createWasmLoader_instantiateWasm wasmPath importObject successCallback) w')
              = map Performed before
                @ [Performed (SuccessCallback (instance_of wasmModule') (module_of wasmModule'))]
                @ map Performed after @ [Resolved (instance_of wasmModule')]
            \<and> filter is_callback (before @ after) = [])"
proof
  let ?i = "instance_of wasmModule" and ?m = "module_of wasmModule"
  let ?before = "[Console LogLevel ''custom instantiateWasm called'' [],
             Fetch \<lparr>req_url = wasmPath @ ''/vision_wasm_internal.wasm'',
                    req_method = GET, req_accept = Some ''application/wasm''\<rparr>,
             InstantiateStreaming response (Some importObject)]"
  let ?after = "[Console LogLevel ''streaming instantiation succeeded'' []]"
  have "timeline (run h (createWasmConfig_instantiateWasm wasmPath importObject successCallback) w)
          = map Performed ?before @ [Performed (SuccessCallback ?i ?m)]
            @ map Performed ?after @ [Resolved ?i]"
    by (simp add: createWasmConfig_streaming_success [where successCallback = successCallback, OF assms(1) assms(2) assms(3)] timeline_def)
  moreover have "filter is_callback (?before @ ?after) = []" by simp
  ultimately show "\<exists>before after.
            timeline (run h (createWasmConfig_instantiateWasm wasmPath importObject successCallback) w)
              = map Performed before @ [Performed (SuccessCallback ?i ?m)]
                @ map Performed after @ [Resolved ?i]
            \<and> filter is_callback (before @ after) = []"
    by blast
next
  let ?i = "instance_of wasmModule'" and ?m = "module_of wasmModule'"
  let ?before = "[Console LogLevel ''custom WASM instantiation'' [],
             Console LogLevel ''loading WASM'' [Str (wasmPath @ ''/vision_wasm_internal.wasm'')],
             Fetch \<lparr>req_url = wasmPath @ ''/vision_wasm_internal.wasm'', req_method = GET,
                    req_accept = None\<rparr>]
            @ (if mime_suspect (content_type response')
               then [Console WarnLevel ''WASM MIME type may be incorrect''
                       [shown (content_type response')]]
               else [])
            @ [InstantiateStreaming response' (Some importObject)]"
  let ?after = "[Console LogLevel ''WASM instantiation succeeded'' []]"
  have "timeline (run h' (createWasmLoader_instantiateWasm wasmPath importObject successCallback) w')
          = map Performed ?before @ [Performed (SuccessCallback ?i ?m)]
            @ map Performed ?after @ [Resolved ?i]"
    by (simp add: createWasmLoader_streaming_success [where successCallback = successCallback, OF assms(4) assms(5) assms(6) assms(7)]
        timeline_def)
  moreover have "filter is_callback (?before @ ?after) = []" by simp
  ultimately show "\<exists>before after.
            timeline (run h' (createWasmLoader_instantiateWasm wasmPath importObject successCallback) w')
              = map Performed before @ [Performed (SuccessCallback ?i ?m)]
                @ map Performed after @ [Resolved ?i]
            \<and> filter is_callback (before @ after) = []"
    by blast
qed

theorem streaming_success_callback_once_witness:
  "(\<exists>before after.
      timeline (run (sample_host True)
          (createWasmConfig_instantiateWasm ''/wasm'' (ImportsRef 1) accepting) good_world)
        = map Performed before
          @ [Performed (SuccessCallback (InstanceRef 7) (ModuleRef 7))]
          @ map Performed after @ [Resolved (InstanceRef 7)]
      \<and> filter is_callback (before @ after) = [])
   \<and> (\<exists>before after.
      timeline (run (sample_host True)
          (createWasmLoader_instantiateWasm ''/wasm'' (ImportsRef 1) accepting) good_world)
        = map Performed before
          @ [Performed (SuccessCallback (InstanceRef 7) (ModuleRef 7))]
          @ map Performed after @ [Resolved (InstanceRef 7)]
      \<and> filter is_callback (before @ after) = [])"
  using streaming_success_callback_once [where h = "sample_host True" and h' = "sample_host True"
      and wasmPath = "''/wasm''" and importObject = "ImportsRef 1" and successCallback = accepting
      and w = good_world and w' = good_world
      and response = "wasm_file (Some ''application/wasm'')"
      and response' = "wasm_file (Some ''application/wasm'')"
      and ?w1.0 = "good_world\<lparr>network := [Inr (wasm_file (Some ''application/wasm''))]\<rparr>"
      and w1' = "good_world\<lparr>network := [Inr (wasm_file (Some ''application/wasm''))]\<rparr>"
      and wasmModule = "\<lparr>instance_of = InstanceRef 7, module_of = ModuleRef 7\<rparr>"
      and wasmModule' = "\<lparr>instance_of = InstanceRef 7, module_of = ModuleRef 7\<rparr>"
      and ?w2.0 = "\<lparr>network = [Inr (wasm_file (Some ''application/wasm''))], next_ref = 8\<rparr>"
      and w2' = "\<lparr>network = [Inr (wasm_file (Some ''application/wasm''))], next_ref = 8\<rparr>"]
  by (simp add: sample_defs)

section \<open>The fallback\<close>

text \<open>
  C3, as amended. In \<open>createWasmConfig().instantiateWasm\<close>: when the streaming attempt
  fails, for whatever reason, and the second fetch of the same URL, the buffering of its body
  and the instantiation from the buffer are fulfilled and the callback returns, the operation
  succeeds: the callback is invoked with the instance and module the fallback produced, and
  that instance is returned. \<open>createWasmLoader().instantiateWasm\<close> has no fallback: it
  fetches once and never reads a buffer or instantiates from one.
\<close>

theorem fallback_recovers:
  assumes "run h (streaming_attempt (wasmPath @ ''/vision_wasm_internal.wasm'') importObject
             successCallback) w = (Inl error, w1, tr1)"
      and "host_fetch h \<lparr>req_url = wasmPath @ ''/vision_wasm_internal.wasm'', req_method = GET,
                         req_accept = None\<rparr> w1 = (Inr response, w2)"
      and "host_arrayBuffer h response w2 = (Inr wasmBuffer, w3)"
      and "host_instantiate h wasmBuffer importObject w3 = (Inr wasmModule, w4)"
      and "successCallback (instance_of wasmModule) (module_of wasmModule) = None"
  shows "run h (createWasmConfig_instantiateWasm wasmPath importObject successCallback) w =
           (Inr (instance_of wasmModule), w4,
            Console LogLevel ''custom instantiateWasm called'' [] # tr1 @
            [Console ErrorLevel ''streaming instantiation failed'' [Exn error],
             Console LogLevel ''trying the ArrayBuffer fallback'' [],
             Fetch \<lparr>req_url = wasmPath @ ''/vision_wasm_internal.wasm'', req_method = GET,
                    req_accept = None\<rparr>,
             ArrayBuffer response,
             Instantiate wasmBuffer importObject,
             SuccessCallback (instance_of wasmModule) (module_of wasmModule),
             Console LogLevel ''ArrayBuffer fallback succeeded'' []])
         \<and> (\<exists>rest. tr1 = Fetch \<lparr>req_url = wasmPath @ ''/vision_wasm_internal.wasm'',
                                   req_method = GET, req_accept = Some ''application/wasm''\<rparr> # rest)
         \<and> fetched (snd (snd (run h' (createWasmLoader_instantiateWasm wasmPath' importObject'
               successCallback') w'))) =
             [\<lparr>req_url = wasmPath' @ ''/vision_wasm_internal.wasm'', req_method = GET,
               req_accept = None\<rparr>]
         \<and> filter is_buffered (snd (snd (run h' (createWasmLoader_instantiateWasm wasmPath'
               importObject' successCallback') w'))) = []"
proof (intro conjI)
  have "run h (fallback_attempt (wasmPath @ ''/vision_wasm_internal.wasm'') importObject
          successCallback) w1 =
        (Inr (instance_of wasmModule), w4,
         [Console LogLevel ''trying the ArrayBuffer fallback'' [],
          Fetch \<lparr>req_url = wasmPath @ ''/vision_wasm_internal.wasm'', req_method = GET,
                 req_accept = None\<rparr>,
          ArrayBuffer response,
          Instantiate wasmBuffer importObject,
          SuccessCallback (instance_of wasmModule) (module_of wasmModule),
          Console LogLevel ''ArrayBuffer fallback succeeded'' []])"
    using assms(2-5) by (rule fallback_attempt_ok)
  with assms(1) show "run h (createWasmConfig_instantiateWasm wasmPath importObject successCallback) w =
           (Inr (instance_of wasmModule), w4,
            Console LogLevel ''custom instantiateWasm called'' [] # tr1 @
            [Console ErrorLevel ''streaming instantiation failed'' [Exn error],
             Console LogLevel ''trying the ArrayBuffer fallback'' [],
             Fetch \<lparr>req_url = wasmPath @ ''/vision_wasm_internal.wasm'', req_method = GET,
                    req_accept = None\<rparr>,
             ArrayBuffer response,
             Instantiate wasmBuffer importObject,
             SuccessCallback (instance_of wasmModule) (module_of wasmModule),
             Console LogLevel ''ArrayBuffer fallback succeeded'' []])"
    by (simp add: createWasmConfig_instantiateWasm_run)
next
  show "\<exists>rest. tr1 = Fetch \<lparr>req_url = wasmPath @ ''/vision_wasm_internal.wasm'',
                                   req_method = GET, req_accept = Some ''application/wasm''\<rparr> # rest"
    using streaming_attempt_starts_with_fetch
      [of h "wasmPath @ ''/vision_wasm_internal.wasm''" importObject successCallback w] assms(1)
    by simp
next
  show "fetched (snd (snd (run h' (createWasmLoader_instantiateWasm wasmPath' importObject'
               successCallback') w'))) =
             [\<lparr>req_url = wasmPath' @ ''/vision_wasm_internal.wasm'', req_method = GET,
               req_accept = None\<rparr>]"
    using createWasmLoader_no_fallback [of h' wasmPath' importObject' successCallback' w']
    by simp
next
  show "filter is_buffered (snd (snd (run h' (createWasmLoader_instantiateWasm wasmPath'
               importObject' successCallback') w'))) = []"
    using createWasmLoader_no_fallback [of h' wasmPath' importObject' successCallback' w']
    by simp
qed

theorem fallback_recovers_witness:
  "run (sample_host True) (createWasmConfig_instantiateWasm ''/wasm'' (ImportsRef 1) accepting)
     octet_world =
     (Inr (InstanceRef 0), \<lparr>network = [], next_ref = 1\<rparr>,
      [Console LogLevel ''custom instantiateWasm called'' [],
       Fetch \<lparr>req_url = ''/wasm/vision_wasm_internal.wasm'', req_method = GET,
              req_accept = Some ''application/wasm''\<rparr>,
       InstantiateStreaming (wasm_file (Some ''application/octet-stream'')) (Some (ImportsRef 1)),
       Console ErrorLevel ''streaming instantiation failed''
         [Exn (JsError ''TypeError'' ''Incorrect response'')],
       Console LogLevel ''trying the ArrayBuffer fallback'' [],
       Fetch \<lparr>req_url = ''/wasm/vision_wasm_internal.wasm'', req_method = GET,
              req_accept = None\<rparr>,
       ArrayBuffer (wasm_file (Some ''application/octet-stream'')),
       Instantiate [0, 97, 115, 109, 1, 0, 0, 0] (ImportsRef 1),
       SuccessCallback (InstanceRef 0) (ModuleRef 0),
       Console LogLevel ''ArrayBuffer fallback succeeded'' []])"
proof -
  have s: "run (sample_host True)
             (streaming_attempt (''/wasm'' @ ''/vision_wasm_internal.wasm'') (ImportsRef 1) accepting)
             octet_world =
           (Inl (JsError ''TypeError'' ''Incorrect response''),
            \<lparr>network = [Inr (wasm_file (Some ''application/octet-stream''))], next_ref = 0\<rparr>,
            [Fetch \<lparr>req_url = ''/wasm/vision_wasm_internal.wasm'', req_method = GET,
                    req_accept = Some ''application/wasm''\<rparr>,
             InstantiateStreaming (wasm_file (Some ''application/octet-stream''))
               (Some (ImportsRef 1))])"
    by (simp add: streaming_attempt_def prims sample_defs)
  have f: "host_fetch (sample_host True)
             \<lparr>req_url = ''/wasm'' @ ''/vision_wasm_internal.wasm'', req_method = GET,
                req_accept = None\<rparr>
             \<lparr>network = [Inr (wasm_file (Some ''application/octet-stream''))], next_ref = 0\<rparr> =
           (Inr (wasm_file (Some ''application/octet-stream'')), \<lparr>network = [], next_ref = 0\<rparr>)"
    by (simp add: sample_defs)
  have b: "host_arrayBuffer (sample_host True) (wasm_file (Some ''application/octet-stream''))
             \<lparr>network = [], next_ref = 0\<rparr> =
           (Inr [0, 97, 115, 109, 1, 0, 0, 0], \<lparr>network = [], next_ref = 0\<rparr>)"
    by (simp add: sample_defs)
  have i: "host_instantiate (sample_host True) [0, 97, 115, 109, 1, 0, 0, 0] (ImportsRef 1)
             \<lparr>network = [], next_ref = 0\<rparr> =
           (Inr \<lparr>instance_of = InstanceRef 0, module_of = ModuleRef 0\<rparr>,
            \<lparr>network = [], next_ref = 1\<rparr>)"
    by (simp add: sample_defs)
  have c: "accepting (instance_of \<lparr>instance_of = InstanceRef 0, module_of = ModuleRef 0\<rparr>)
             (module_of \<lparr>instance_of = InstanceRef 0, module_of = ModuleRef 0\<rparr>) = None"
    by (simp add: accepting_def)
  from fallback_recovers [where successCallback = accepting and h' = "sample_host True"
      and wasmPath' = "''/wasm''" and importObject' = "ImportsRef 1"
      and successCallback' = accepting and w' = octet_world, OF s f b i c]
  show ?thesis by simp
qed

text \<open>
  The claim as stated speaks of every \<open>instantiateWasm\<close>. Where the binary is served as
  \<open>application/octet-stream\<close> and the host is strict, the streaming attempt of
  \<open>createWasmLoader().instantiateWasm\<close> fails and the operation rejects, although a second
  fetch, the buffering and the instantiation from the buffer would all succeed from the state
  it leaves.
\<close>

theorem fallback_recovers_counterexample:
  "fst (run (sample_host True) (createWasmLoader_instantiateWasm ''/wasm'' (ImportsRef 1) accepting)
          octet_world) = Inl (JsError ''TypeError'' ''Incorrect response'')
   \<and> fst (snd (run (sample_host True)
          (createWasmLoader_instantiateWasm ''/wasm'' (ImportsRef 1) accepting) octet_world)) =
       \<lparr>network = [Inr (wasm_file (Some ''application/octet-stream''))], next_ref = 0\<rparr>
   \<and> host_fetch (sample_host True)
         \<lparr>req_url = ''/wasm/vision_wasm_internal.wasm'', req_method = GET, req_accept = None\<rparr>
         \<lparr>network = [Inr (wasm_file (Some ''application/octet-stream''))], next_ref = 0\<rparr> =
       (Inr (wasm_file (Some ''application/octet-stream'')), \<lparr>network = [], next_ref = 0\<rparr>)
   \<and> host_arrayBuffer (sample_host True) (wasm_file (Some ''application/octet-stream''))
         \<lparr>network = [], next_ref = 0\<rparr> =
       (Inr [0, 97, 115, 109, 1, 0, 0, 0], \<lparr>network = [], next_ref = 0\<rparr>)
   \<and> host_instantiate (sample_host True) [0, 97, 115, 109, 1, 0, 0, 0] (ImportsRef 1)
         \<lparr>network = [], next_ref = 0\<rparr> =
       (Inr \<lparr>instance_of = InstanceRef 0, module_of = ModuleRef 0\<rparr>,
        \<lparr>network = [], next_ref = 1\<rparr>)
   \<and> accepting (InstanceRef 0) (ModuleRef 0) = None"
  by (simp add: createWasmLoader_instantiateWasm_def prims sample_defs Let_def mime_suspect_def
      shown_def)

text \<open>
  C4, as amended. In \<open>createWasmConfig().instantiateWasm\<close>: when the streaming attempt
  fails with \<open>error\<close> and the fallback attempt fails with \<open>fallbackError\<close>, the operation
  rejects with \<open>fallbackError\<close> itself, rethrown as it was caught; \<open>error\<close> appears in
  the log only.
\<close>

theorem both_attempts_fail:
  assumes "run h (streaming_attempt (wasmPath @ ''/vision_wasm_internal.wasm'') importObject
             successCallback) w = (Inl error, w1, tr1)"
      and "run h (fallback_attempt (wasmPath @ ''/vision_wasm_internal.wasm'') importObject
             successCallback) w1 = (Inl fallbackError, w2, tr2)"
  shows "run h (createWasmConfig_instantiateWasm wasmPath importObject successCallback) w =
           (Inl fallbackError, w2,
            Console LogLevel ''custom instantiateWasm called'' [] # tr1 @
            Console ErrorLevel ''streaming instantiation failed'' [Exn error] # tr2 @
            [Console ErrorLevel ''ArrayBuffer fallback failed too'' [Exn fallbackError]])"
  using assms by (simp add: createWasmConfig_instantiateWasm_run)

theorem both_attempts_fail_witness:
  "run (sample_host True) (createWasmConfig_instantiateWasm ''/wasm'' (ImportsRef 1) accepting)
     missing_world =
     (Inl (JsError ''CompileError'' ''bad magic''), \<lparr>network = [], next_ref = 0\<rparr>,
      [Console LogLevel ''custom instantiateWasm called'' [],
       Fetch \<lparr>req_url = ''/wasm/vision_wasm_internal.wasm'', req_method = GET,
              req_accept = Some ''application/wasm''\<rparr>,
       InstantiateStreaming page_404 (Some (ImportsRef 1)),
       Console ErrorLevel ''streaming instantiation failed''
         [Exn (JsError ''TypeError'' ''Incorrect response'')],
       Console LogLevel ''trying the ArrayBuffer fallback'' [],
       Fetch \<lparr>req_url = ''/wasm/vision_wasm_internal.wasm'', req_method = GET,
              req_accept = None\<rparr>,
       ArrayBuffer page_404,
       Instantiate [60, 33, 68, 79] (ImportsRef 1),
       Console ErrorLevel ''ArrayBuffer fallback failed too''
         [Exn (JsError ''CompileError'' ''bad magic'')]])"
proof -
  have s: "run (sample_host True)
             (streaming_attempt (''/wasm'' @ ''/vision_wasm_internal.wasm'') (ImportsRef 1) accepting)
             missing_world =
           (Inl (JsError ''TypeError'' ''Incorrect response''),
            \<lparr>network = [Inr page_404], next_ref = 0\<rparr>,
            [Fetch \<lparr>req_url = ''/wasm/vision_wasm_internal.wasm'', req_method = GET,
                    req_accept = Some ''application/wasm''\<rparr>,
             InstantiateStreaming page_404 (Some (ImportsRef 1))])"
    by (simp add: streaming_attempt_def prims sample_defs)
  have f: "run (sample_host True)
             (fallback_attempt (''/wasm'' @ ''/vision_wasm_internal.wasm'') (ImportsRef 1) accepting)
             \<lparr>network = [Inr page_404], next_ref = 0\<rparr> =
           (Inl (JsError ''CompileError'' ''bad magic''), \<lparr>network = [], next_ref = 0\<rparr>,
            [Console LogLevel ''trying the ArrayBuffer fallback'' [],
             Fetch \<lparr>req_url = ''/wasm/vision_wasm_internal.wasm'', req_method = GET,
                    req_accept = None\<rparr>,
             ArrayBuffer page_404,
             Instantiate [60, 33, 68, 79] (ImportsRef 1)])"
    by (simp add: fallback_attempt_def prims sample_defs)
  from both_attempts_fail [where successCallback = accepting, OF s f]
  show ?thesis by simp
qed

text \<open>
  The claim as stated has the operation fail with an error of a kind of its own,
  \<open>FallbackExhaustedError\<close>, that wraps the fallback's failure. The source creates no error
  in that handler: \<open>throw fallbackError\<close> rethrows the value caught. On a host where the
  binary is missing, both attempts fail, and the operation rejects with the very
  \<open>CompileError\<close> the buffered instantiation rejected with.
\<close>

theorem both_attempts_fail_counterexample:
  "fst (run (sample_host True)
          (streaming_attempt ''/wasm/vision_wasm_internal.wasm'' (ImportsRef 1) accepting)
          missing_world) = Inl (JsError ''TypeError'' ''Incorrect response'')
   \<and> fst (run (sample_host True)
          (fallback_attempt ''/wasm/vision_wasm_internal.wasm'' (ImportsRef 1) accepting)
          \<lparr>network = [Inr page_404], next_ref = 0\<rparr>) =
       Inl (JsError ''CompileError'' ''bad magic'')
   \<and> host_instantiate (sample_host True) [60, 33, 68, 79] (ImportsRef 1)
         \<lparr>network = [], next_ref = 0\<rparr> =
       (Inl (JsError ''CompileError'' ''bad magic''), \<lparr>network = [], next_ref = 0\<rparr>)
   \<and> fst (run (sample_host True)
          (createWasmConfig_instantiateWasm ''/wasm'' (ImportsRef 1) accepting)
          missing_world) = Inl (JsError ''CompileError'' ''bad magic'')
   \<and> error_name (JsError ''CompileError'' ''bad magic'') = ''CompileError''
   \<and> ''CompileError'' \<noteq> ''FallbackExhaustedError''"
  by (simp add: createWasmConfig_instantiateWasm_def streaming_attempt_def fallback_attempt_def
      prims sample_defs Let_def)

section \<open>Failure statuses and content types\<close>

text \<open>
  C5, as amended. In \<open>createWasmLoader().instantiateWasm\<close>: when the fetch is answered with
  a failure status, the operation rejects with an error whose message is
  \<open>HTTP <status>: <statusText>\<close> of that response, without compiling anything and without
  calling the callback.
\<close>

theorem loader_transport_error:
  assumes "host_fetch h \<lparr>req_url = wasmPath @ ''/vision_wasm_internal.wasm'', req_method = GET,
                         req_accept = None\<rparr> w = (Inr response, w1)"
      and "\<not> ok response"
  shows "run h (createWasmLoader_instantiateWasm wasmPath importObject successCallback) w =
           (Inl (http_error response), w1,
            [Console LogLevel ''custom WASM instantiation'' [],
             Console LogLevel ''loading WASM'' [Str (wasmPath @ ''/vision_wasm_internal.wasm'')],
             Fetch \<lparr>req_url = wasmPath @ ''/vision_wasm_internal.wasm'', req_method = GET,
                    req_accept = None\<rparr>,
             Console ErrorLevel ''WASM instantiation failed'' [Exn (http_error response)]])
         \<and> http_error response =
             JsError ''Error'' (''HTTP '' @ string_of_nat (status response) @ '': ''
                                @ statusText response)"
  using assms by (simp add: createWasmLoader_instantiateWasm_run Let_def http_error_def new_Error_def)

theorem loader_transport_error_witness:
  "run (sample_host True) (createWasmLoader_instantiateWasm ''/wasm'' (ImportsRef 1) accepting)
     missing_world =
     (Inl (JsError ''Error'' ''HTTP 404: Not Found''), \<lparr>network = [Inr page_404], next_ref = 0\<rparr>,
      [Console LogLevel ''custom WASM instantiation'' [],
       Console LogLevel ''loading WASM'' [Str ''/wasm/vision_wasm_internal.wasm''],
       Fetch \<lparr>req_url = ''/wasm/vision_wasm_internal.wasm'', req_method = GET,
              req_accept = None\<rparr>,
       Console ErrorLevel ''WASM instantiation failed''
         [Exn (JsError ''Error'' ''HTTP 404: Not Found'')]])"
proof -
  have f: "host_fetch (sample_host True)
             \<lparr>req_url = ''/wasm'' @ ''/vision_wasm_internal.wasm'', req_method = GET,
                req_accept = None\<rparr> missing_world =
           (Inr page_404, \<lparr>network = [Inr page_404], next_ref = 0\<rparr>)"
    by (simp add: sample_defs)
  have n: "\<not> ok page_404" by (simp add: page_404_def)
  have m: "string_of_nat (status page_404) = ''404''"
    by (simp add: page_404_def string_of_nat.simps)
  from loader_transport_error [where successCallback = accepting and importObject = "ImportsRef 1",
      OF f n] m
  show ?thesis by (simp add: page_404_def)
qed

text \<open>
  The claim as stated speaks of every \<open>instantiateWasm\<close>. \<open>createWasmConfig().instantiateWasm\<close>
  does not read the status: on a 404 page its streaming attempt fails with the error of the
  host's streaming primitive, and the operation with the error of the buffered compilation;
  neither carries the status or the status text.
\<close>

theorem transport_error_counterexample:
  "host_fetch (sample_host True)
     \<lparr>req_url = ''/wasm/vision_wasm_internal.wasm'', req_method = GET,
        req_accept = Some ''application/wasm''\<rparr> missing_world =
     (Inr page_404, \<lparr>network = [Inr page_404], next_ref = 0\<rparr>)
   \<and> \<not> ok page_404
   \<and> http_error page_404 = JsError ''Error'' ''HTTP 404: Not Found''
   \<and> fst (run (sample_host True)
          (streaming_attempt ''/wasm/vision_wasm_internal.wasm'' (ImportsRef 1) accepting)
          missing_world) = Inl (JsError ''TypeError'' ''Incorrect response'')
   \<and> fst (run (sample_host True)
          (createWasmConfig_instantiateWasm ''/wasm'' (ImportsRef 1) accepting)
          missing_world) = Inl (JsError ''CompileError'' ''bad magic'')"
  by (simp add: createWasmConfig_instantiateWasm_def streaming_attempt_def fallback_attempt_def
      prims sample_defs Let_def http_error_def new_Error_def string_of_nat.simps)

text \<open>
  C6, as amended. In \<open>createWasmLoader().instantiateWasm\<close> and in \<open>loadWasm\<close>: when the
  fetch is answered with a success status and the content-type header is absent, empty or
  does not include \<open>application/wasm\<close>, a warning is emitted, the response is then handed to
  the streaming instantiation, and the operation settles as that step (and, for
  \<open>instantiateWasm\<close>, the callback) does. \<open>createWasmConfig().instantiateWasm\<close> never
  warns: it hands every response the fetch is fulfilled with to the streaming instantiation,
  whatever its content type.
\<close>

theorem loader_mime_warning_not_fatal:
  assumes "host_fetch h \<lparr>req_url = wasmPath @ ''/vision_wasm_internal.wasm'', req_method = GET,
                         req_accept = None\<rparr> w = (Inr response, w1)"
      and "ok response" and "mime_suspect (content_type response)"
      and "host_fetch h' \<lparr>req_url = basePath @ ''/'' @ wasmFileName, req_method = GET,
                          req_accept = Some ''application/wasm''\<rparr> w' = (Inr response', w1')"
      and "ok response'" and "mime_suspect (content_type response')"
      and "host_fetch h'' \<lparr>req_url = wasmPath @ ''/vision_wasm_internal.wasm'', req_method = GET,
                           req_accept = Some ''application/wasm''\<rparr> w'' = (Inr response'', w1'')"
  shows "(\<exists>before after.
            snd (snd (run h (createWasmLoader_instantiateWasm wasmPath importObject successCallback) w))
              = before @ [Console WarnLevel ''WASM MIME type may be incorrect''
                            [shown (content_type response)],
                          InstantiateStreaming response (Some importObject)] @ after)
       \<and> fst (run h (createWasmLoader_instantiateWasm wasmPath importObject successCallback) w) =
           (case host_instantiateStreaming h response (Some importObject) w1 of
              (Inl e, w2) \<Rightarrow> Inl e
            | (Inr wasmModule, w2) \<Rightarrow>
                (case successCallback (instance_of wasmModule) (module_of wasmModule) of
                   Some e \<Rightarrow> Inl e
                 | None \<Rightarrow> Inr (instance_of wasmModule)))
       \<and> (\<exists>before after.
            snd (snd (run h' (loadWasm basePath wasmFileName) w'))
              = before @ [Console WarnLevel ''MIME type may be incorrect''
                            [shown (content_type response')],
                          InstantiateStreaming response' None] @ after)
       \<and> fst (run h' (loadWasm basePath wasmFileName) w') =
           (case host_instantiateStreaming h' response' None w1' of
              (Inl e, w2) \<Rightarrow> Inl e
            | (Inr wasmModule, w2) \<Rightarrow> Inr (instance_of wasmModule))
       \<and> (\<exists>after.
            snd (snd (run h'' (createWasmConfig_instantiateWasm wasmPath importObject
                successCallback) w''))
              = [Console LogLevel ''custom instantiateWasm called'' [],
                 Fetch \<lparr>req_url = wasmPath @ ''/vision_wasm_internal.wasm'', req_method = GET,
                        req_accept = Some ''application/wasm''\<rparr>,
                 InstantiateStreaming response'' (Some importObject)] @ after)
       \<and> filter is_warning (snd (snd (run h'' (createWasmConfig_instantiateWasm wasmPath
             importObject successCallback) w''))) = []"
proof (intro conjI)
  show "\<exists>after.
            snd (snd (run h'' (createWasmConfig_instantiateWasm wasmPath importObject
                successCallback) w''))
              = [Console LogLevel ''custom instantiateWasm called'' [],
                 Fetch \<lparr>req_url = wasmPath @ ''/vision_wasm_internal.wasm'', req_method = GET,
                        req_accept = Some ''application/wasm''\<rparr>,
                 InstantiateStreaming response'' (Some importObject)] @ after"
    using assms(7) by (rule createWasmConfig_reaches_streaming)
  show "filter is_warning (snd (snd (run h'' (createWasmConfig_instantiateWasm wasmPath
             importObject successCallback) w''))) = []"
    by (rule createWasmConfig_never_warns)
  show "\<exists>before after.
            snd (snd (run h (createWasmLoader_instantiateWasm wasmPath importObject successCallback) w))
              = before @ [Console WarnLevel ''WASM MIME type may be incorrect''
                            [shown (content_type response)],
                          InstantiateStreaming response (Some importObject)] @ after"
    using assms(1-3)
    by (auto simp: createWasmLoader_instantiateWasm_run Let_def
        split: prod.splits sum.splits option.splits
        intro: exI [where x = "[Console LogLevel ''custom WASM instantiation'' [],
             Console LogLevel ''loading WASM'' [Str (wasmPath @ ''/vision_wasm_internal.wasm'')],
             Fetch \<lparr>req_url = wasmPath @ ''/vision_wasm_internal.wasm'', req_method = GET,
                    req_accept = None\<rparr>]"])
  show "fst (run h (createWasmLoader_instantiateWasm wasmPath importObject successCallback) w) =
           (case host_instantiateStreaming h response (Some importObject) w1 of
              (Inl e, w2) \<Rightarrow> Inl e
            | (Inr wasmModule, w2) \<Rightarrow>
                (case successCallback (instance_of wasmModule) (module_of wasmModule) of
                   Some e \<Rightarrow> Inl e
                 | None \<Rightarrow> Inr (instance_of wasmModule)))"
    using assms(1-3)
    by (simp add: createWasmLoader_instantiateWasm_run Let_def
        split: prod.splits sum.splits option.splits)
  show "\<exists>before after.
            snd (snd (run h' (loadWasm basePath wasmFileName) w'))
              = before @ [Console WarnLevel ''MIME type may be incorrect''
                            [shown (content_type response')],
                          InstantiateStreaming response' None] @ after"
    using assms(4-6)
    by (auto simp: loadWasm_run Let_def split: prod.splits sum.splits
        intro: exI [where x = "[Console LogLevel ''start loading WASM file''
                                  [Str (basePath @ ''/'' @ wasmFileName)],
             Fetch \<lparr>req_url = basePath @ ''/'' @ wasmFileName, req_method = GET,
                    req_accept = Some ''application/wasm''\<rparr>]"])
  show "fst (run h' (loadWasm basePath wasmFileName) w') =
           (case host_instantiateStreaming h' response' None w1' of
              (Inl e, w2) \<Rightarrow> Inl e
            | (Inr wasmModule, w2) \<Rightarrow> Inr (instance_of wasmModule))"
    using assms(4-6)
    by (simp add: loadWasm_run Let_def split: prod.splits sum.splits)
qed

theorem loader_mime_warning_not_fatal_witness:
  "(\<exists>before after.
      snd (snd (run (sample_host False)
          (createWasmLoader_instantiateWasm ''/wasm'' (ImportsRef 1) accepting) lenient_world))
        = before @ [Console WarnLevel ''WASM MIME type may be incorrect'' [Null],
                    InstantiateStreaming (wasm_file None) (Some (ImportsRef 1))] @ after)
   \<and> fst (run (sample_host False)
          (createWasmLoader_instantiateWasm ''/wasm'' (ImportsRef 1) accepting) lenient_world) =
       Inr (InstanceRef 3)
   \<and> (\<exists>before after.
      snd (snd (run (sample_host False) (loadWasm ''/wasm'' ''vision_wasm_internal.wasm'')
          lenient_world))
        = before @ [Console WarnLevel ''MIME type may be incorrect'' [Null],
                    InstantiateStreaming (wasm_file None) None] @ after)
   \<and> fst (run (sample_host False) (loadWasm ''/wasm'' ''vision_wasm_internal.wasm'')
          lenient_world) = Inr (InstanceRef 3)
   \<and> (\<exists>after.
      snd (snd (run (sample_host True)
          (createWasmConfig_instantiateWasm ''/wasm'' (ImportsRef 1) accepting) octet_world))
        = [Console LogLevel ''custom instantiateWasm called'' [],
           Fetch \<lparr>req_url = ''/wasm/vision_wasm_internal.wasm'', req_method = GET,
                  req_accept = Some ''application/wasm''\<rparr>,
           InstantiateStreaming (wasm_file (Some ''application/octet-stream''))
             (Some (ImportsRef 1))] @ after)"
proof -
  have f: "host_fetch (sample_host False)
             \<lparr>req_url = ''/wasm'' @ ''/vision_wasm_internal.wasm'', req_method = GET,
                req_accept = None\<rparr> lenient_world =
           (Inr (wasm_file None), \<lparr>network = [Inr (wasm_file None)], next_ref = 3\<rparr>)"
    by (simp add: sample_defs2)
  have f': "host_fetch (sample_host False)
             \<lparr>req_url = ''/wasm'' @ ''/'' @ ''vision_wasm_internal.wasm'', req_method = GET,
                req_accept = Some ''application/wasm''\<rparr> lenient_world =
           (Inr (wasm_file None), \<lparr>network = [Inr (wasm_file None)], next_ref = 3\<rparr>)"
    by (simp add: sample_defs2)
  have k: "ok (wasm_file None)" by (simp add: wasm_file_def)
  have m: "mime_suspect (content_type (wasm_file None))"
    by (simp add: wasm_file_def mime_suspect_def)
  have g: "host_fetch (sample_host True)
             \<lparr>req_url = ''/wasm'' @ ''/vision_wasm_internal.wasm'', req_method = GET,
                req_accept = Some ''application/wasm''\<rparr> octet_world =
           (Inr (wasm_file (Some ''application/octet-stream'')),
            \<lparr>network = [Inr (wasm_file (Some ''application/octet-stream''))], next_ref = 0\<rparr>)"
    by (simp add: sample_defs2)
  from loader_mime_warning_not_fatal [where successCallback = accepting
      and importObject = "ImportsRef 1", OF f k m f' k m g]
  show ?thesis by (simp add: sample_defs2 shown_def)
qed

text \<open>
  The claim as stated speaks of every \<open>instantiateWasm\<close>. \<open>createWasmConfig().instantiateWasm\<close>
  never reads the content type: with the binary served as \<open>application/octet-stream\<close> it
  emits no warning at all.
\<close>

theorem mime_warning_counterexample:
  "host_fetch (sample_host True)
     \<lparr>req_url = ''/wasm/vision_wasm_internal.wasm'', req_method = GET,
        req_accept = Some ''application/wasm''\<rparr> octet_world =
     (Inr (wasm_file (Some ''application/octet-stream'')),
      \<lparr>network = [Inr (wasm_file (Some ''application/octet-stream''))], next_ref = 0\<rparr>)
   \<and> ok (wasm_file (Some ''application/octet-stream''))
   \<and> mime_suspect (content_type (wasm_file (Some ''application/octet-stream'')))
   \<and> filter is_warning (snd (snd (run (sample_host True)
          (createWasmConfig_instantiateWasm ''/wasm'' (ImportsRef 1) accepting) octet_world))) = []"
  by (simp add: createWasmConfig_instantiateWasm_def streaming_attempt_def fallback_attempt_def
      prims sample_defs Let_def mime_suspect_def)

section \<open>loadWasm\<close>

text \<open>
  C9. \<open>loadWasm\<close> rejects with the fetch's error when the fetch is rejected, with the
  \<open>HTTP\<close> error when the status is a failure, with the error of the streaming instantiation
  when that is rejected, and otherwise resolves with the \<open>instance\<close> field of the
  instantiation result; every call it makes of the streaming primitive passes no import
  object.
\<close>

theorem loadWasm_resolves_with_instance:
  "fst (run h (loadWasm basePath wasmFileName) w) =
     (case host_fetch h \<lparr>req_url = basePath @ ''/'' @ wasmFileName, req_method = GET,
                         req_accept = Some ''application/wasm''\<rparr> w of
        (Inl e, w1) \<Rightarrow> Inl e
      | (Inr response, w1) \<Rightarrow>
          if \<not> ok response then Inl (http_error response)
          else (case host_instantiateStreaming h response None w1 of
                  (Inl e, w2) \<Rightarrow> Inl e
                | (Inr wasmModule, w2) \<Rightarrow> Inr (instance_of wasmModule)))
   \<and> (\<forall>a \<in> set (snd (snd (run h (loadWasm basePath wasmFileName) w))).
        \<forall>response importObject. a = InstantiateStreaming response importObject
          \<longrightarrow> importObject = None)"
  by (auto simp: loadWasm_run Let_def split: prod.splits sum.splits if_splits)

theorem loadWasm_resolves_with_instance_witness:
  "fst (run (sample_host True) (loadWasm ''/wasm'' ''vision_wasm_internal.wasm'') good_world) =
     Inr (InstanceRef 7)
   \<and> InstantiateStreaming (wasm_file (Some ''application/wasm'')) None
       \<in> set (snd (snd (run (sample_host True) (loadWasm ''/wasm'' ''vision_wasm_internal.wasm'')
                           good_world)))
   \<and> InstantiateStreaming (wasm_file (Some ''application/wasm'')) (Some (ImportsRef 1))
       \<notin> set (snd (snd (run (sample_host True) (loadWasm ''/wasm'' ''vision_wasm_internal.wasm'')
                           good_world)))"
proof -
  have t: "snd (snd (run (sample_host True) (loadWasm ''/wasm'' ''vision_wasm_internal.wasm'')
             good_world)) =
           [Console LogLevel ''start loading WASM file'' [Str ''/wasm/vision_wasm_internal.wasm''],
            Fetch \<lparr>req_url = ''/wasm/vision_wasm_internal.wasm'', req_method = GET,
                   req_accept = Some ''application/wasm''\<rparr>,
            InstantiateStreaming (wasm_file (Some ''application/wasm'')) None,
            Console LogLevel ''WASM file loaded'' [Str ''vision_wasm_internal.wasm'']]"
    by (simp add: loadWasm_def prims sample_defs Let_def mime_suspect_def)
  from loadWasm_resolves_with_instance [of "sample_host True" "''/wasm''"
      "''vision_wasm_internal.wasm''" good_world] t
  show ?thesis by (auto simp: sample_defs)
qed

section \<open>The validator\<close>

lemma validate_loop_run:
  "fst (run h (validate_loop basePath files) w) =
     Inr (if all_pass h basePath files w then None else Some False)
   \<and> fetched (snd (snd (run h (validate_loop basePath files) w))) =
       map (head_request basePath) (checked h basePath files w)"
proof (induction files arbitrary: w)
  case Nil
  show ?case by simp
next
  case (Cons name rest)
  obtain r w1 where f: "host_fetch h (head_request basePath name) w = (r, w1)"
    by (cases "host_fetch h (head_request basePath name) w")
  show ?case
  proof (cases r)
    case (Inl e)
    with f show ?thesis
      by (simp add: run_bind run_try_catch prims Let_def passes_def head_request_def)
  next
    case (Inr response)
    show ?thesis
    proof (cases "ok response")
      case False
      with f Inr show ?thesis
        by (simp add: run_bind run_try_catch prims Let_def passes_def head_request_def)
    next
      case True
      with f Inr Cons.IH [of w1] show ?thesis
        by (auto simp: run_bind run_try_catch prims Let_def passes_def after_check_def
            head_request_def fetched_append split: prod.splits)
    qed
  qed
qed

lemma checked_prefix: "prefix (checked h basePath files w) files"
  by (induction files arbitrary: w) auto

lemma all_pass_checked: "all_pass h basePath files w \<Longrightarrow> checked h basePath files w = files"
  by (induction files arbitrary: w) auto

text \<open>
  C8. \<open>validateWasmFiles\<close> never throws; it returns whether every file passed its check;
  the requests it issues are those for the files up to and including the first one that
  fails, in the order of the list, and none after it. The same holds of its loop over any
  list of filenames. The files checked are a prefix of the list, all of it when every file
  passes.
\<close>

theorem validate_short_circuits:
  "fst (run h (validateWasmFiles basePath) w) = Inr (all_pass h basePath testFiles w)
   \<and> fetched (snd (snd (run h (validateWasmFiles basePath) w))) =
       map (head_request basePath) (checked h basePath testFiles w)
   \<and> fst (run h (validate_loop basePath files) w) =
       Inr (if all_pass h basePath files w then None else Some False)
   \<and> fetched (snd (snd (run h (validate_loop basePath files) w))) =
       map (head_request basePath) (checked h basePath files w)
   \<and> prefix (checked h basePath files w) files
   \<and> (all_pass h basePath files w \<longrightarrow> checked h basePath files w = files)"
proof -
  have loop: "fst (run h (validate_loop basePath fs) w) =
       Inr (if all_pass h basePath fs w then None else Some False)
     \<and> fetched (snd (snd (run h (validate_loop basePath fs) w))) =
       map (head_request basePath) (checked h basePath fs w)" for fs
    by (rule validate_loop_run)
  obtain r w1 tr where run: "run h (validate_loop basePath testFiles) w = (r, w1, tr)"
    by (cases "run h (validate_loop basePath testFiles) w")
  from loop [of testFiles] run have r: "r = Inr (if all_pass h basePath testFiles w then None else Some False)"
    and tr: "fetched tr = map (head_request basePath) (checked h basePath testFiles w)"
    by simp_all
  have "fst (run h (validateWasmFiles basePath) w) = Inr (all_pass h basePath testFiles w)"
    using run r by (simp add: validateWasmFiles_def run_bind console_log_def)
  moreover have "fetched (snd (snd (run h (validateWasmFiles basePath) w))) =
       map (head_request basePath) (checked h basePath testFiles w)"
    using run r tr by (simp add: validateWasmFiles_def run_bind console_log_def fetched_append)
  ultimately show ?thesis
    using loop [of files] checked_prefix [of h basePath files w]
      all_pass_checked [of h basePath files w]
    by blast
qed

theorem validate_short_circuits_witness:
  "fst (run (sample_host True) (validateWasmFiles ''/wasm'') half_world) = Inr False
   \<and> fetched (snd (snd (run (sample_host True) (validateWasmFiles ''/wasm'') half_world))) =
       [head_request ''/wasm'' ''vision_wasm_internal.wasm'']
   \<and> fst (run (sample_host True) (validate_loop ''/wasm'' [''x.wasm'', ''y.wasm'']) half_world) =
       Inr (Some False)
   \<and> fetched (snd (snd (run (sample_host True) (validate_loop ''/wasm'' [''x.wasm'', ''y.wasm''])
         half_world))) = [head_request ''/wasm'' ''x.wasm'']
   \<and> all_pass (sample_host True) ''/wasm'' [''x.wasm'', ''y.wasm''] good_world
   \<and> checked (sample_host True) ''/wasm'' [''x.wasm'', ''y.wasm''] good_world =
       [''x.wasm'', ''y.wasm'']
   \<and> fst (run (sample_host True) (validateWasmFiles ''/wasm'') good_world) = Inr True
   \<and> fetched (snd (snd (run (sample_host True) (validateWasmFiles ''/wasm'') good_world))) =
       [head_request ''/wasm'' ''vision_wasm_internal.wasm'',
        head_request ''/wasm'' ''vision_wasm_internal.js'']"
proof -
  have c1: "checked (sample_host True) ''/wasm'' testFiles half_world =
              [''vision_wasm_internal.wasm'']"
    and c2: "checked (sample_host True) ''/wasm'' [''x.wasm'', ''y.wasm''] half_world = [''x.wasm'']"
    and c3: "checked (sample_host True) ''/wasm'' testFiles good_world =
              [''vision_wasm_internal.wasm'', ''vision_wasm_internal.js'']"
    and c4: "checked (sample_host True) ''/wasm'' [''x.wasm'', ''y.wasm''] good_world =
              [''x.wasm'', ''y.wasm'']"
    by (simp_all add: passes_def after_check_def head_request_def sample_defs half_world_def
        testFiles_def)
  have a1: "all_pass (sample_host True) ''/wasm'' testFiles half_world = False"
    and a2: "all_pass (sample_host True) ''/wasm'' [''x.wasm'', ''y.wasm''] half_world = False"
    and a3: "all_pass (sample_host True) ''/wasm'' testFiles good_world = True"
    and a4: "all_pass (sample_host True) ''/wasm'' [''x.wasm'', ''y.wasm''] good_world = True"
    by (simp_all add: passes_def after_check_def head_request_def sample_defs half_world_def
        testFiles_def)
  show ?thesis
    using validate_short_circuits [of "sample_host True" "''/wasm''" half_world
        "[''x.wasm'', ''y.wasm'']"]
      validate_short_circuits [of "sample_host True" "''/wasm''" good_world
        "[''x.wasm'', ''y.wasm'']"]
    unfolding c1 c2 c3 c4 a1 a2 a3 a4
    by (simp del: validate_loop.simps)
qed

section \<open>The preloader\<close>

lemma advance_catching:
  "advance (catching f p) =
     (case advance p of
        (tr, p') \<Rightarrow>
          (case p' of
             Throw e \<Rightarrow> (tr @ [preload_warning f e], Return None)
           | _ \<Rightarrow> (tr, catching f p')))"
  by (induction p)
    (auto simp: catching_def console_warn_def preload_warning_def split: prod.splits proc.splits)

lemma advance_no_Act: "advance p = (tr, p') \<Longrightarrow> p' \<noteq> Act a p''"
  by (induction p arbitrary: tr) (auto split: prod.splits)

lemma masks_advance:
  assumes "advance p = (tr, p')"
  shows "masks f p' (snd (advance (catching f p)))
         \<and> (\<forall>e. p' = Throw e \<longrightarrow> preload_warning f e \<in> set (fst (advance (catching f p))))"
  using assms advance_no_Act [OF assms]
  by (auto simp: advance_catching masks_def split: proc.splits)

lemma masks_settled: "masks f p q \<Longrightarrow> settled q = settled p"
  by (cases p) (auto simp: masks_def catching_def)

lemma masks_resume:
  assumes "masks f p q" and "resume h p w = (tr, p', w')"
  shows "\<exists>tr2 q'. resume h q w = (tr2, q', w') \<and> masks f p' q'
           \<and> (\<forall>e. p' = Throw e \<longrightarrow> p = Throw e \<or> preload_warning f e \<in> set tr2)"
proof (cases "\<exists>e. p = Throw e")
  case True
  with assms show ?thesis by (auto simp: masks_def)
next
  case False
  with assms(1) have q: "q = catching f p" and nact: "\<forall>a p0. p \<noteq> Act a p0"
    by (auto simp: masks_def)
  show ?thesis
  proof (cases p)
    case (Return x)
    with assms q show ?thesis by (auto simp: masks_def catching_def)
  next
    case (Throw e)
    with False show ?thesis by simp
  next
    case (Act a p0)
    with nact show ?thesis by simp
  next
    case (AwaitFetch req k)
    obtain r w1 where hf: "host_fetch h req w = (r, w1)" by (cases "host_fetch h req w")
    obtain tr1 p1 where adv: "advance (k r) = (tr1, p1)" by (cases "advance (k r)")
    have qk: "q = AwaitFetch req (\<lambda>r. catching f (k r))"
      using q AwaitFetch by (simp add: catching_def)
    from assms(2) AwaitFetch hf adv have "tr = tr1" "p' = p1" "w' = w1" by simp_all
    with masks_advance [OF adv, of f] qk hf show ?thesis
      by (cases "advance (catching f (k r))") auto
  next
    case (AwaitInstantiateStreaming resp imp k)
    obtain r w1 where hf: "host_instantiateStreaming h resp imp w = (r, w1)"
      by (cases "host_instantiateStreaming h resp imp w")
    obtain tr1 p1 where adv: "advance (k r) = (tr1, p1)" by (cases "advance (k r)")
    have qk: "q = AwaitInstantiateStreaming resp imp (\<lambda>r. catching f (k r))"
      using q AwaitInstantiateStreaming by (simp add: catching_def)
    from assms(2) AwaitInstantiateStreaming hf adv have "tr = tr1" "p' = p1" "w' = w1"
      by simp_all
    with masks_advance [OF adv, of f] qk hf show ?thesis
      by (cases "advance (catching f (k r))") auto
  next
    case (AwaitArrayBuffer resp k)
    obtain r w1 where hf: "host_arrayBuffer h resp w = (r, w1)"
      by (cases "host_arrayBuffer h resp w")
    obtain tr1 p1 where adv: "advance (k r) = (tr1, p1)" by (cases "advance (k r)")
    have qk: "q = AwaitArrayBuffer resp (\<lambda>r. catching f (k r))"
      using q AwaitArrayBuffer by (simp add: catching_def)
    from assms(2) AwaitArrayBuffer hf adv have "tr = tr1" "p' = p1" "w' = w1" by simp_all
    with masks_advance [OF adv, of f] qk hf show ?thesis
      by (cases "advance (catching f (k r))") auto
  next
    case (AwaitInstantiate buf imp k)
    obtain r w1 where hf: "host_instantiate h buf imp w = (r, w1)"
      by (cases "host_instantiate h buf imp w")
    obtain tr1 p1 where adv: "advance (k r) = (tr1, p1)" by (cases "advance (k r)")
    have qk: "q = AwaitInstantiate buf imp (\<lambda>r. catching f (k r))"
      using q AwaitInstantiate by (simp add: catching_def)
    from assms(2) AwaitInstantiate hf adv have "tr = tr1" "p' = p1" "w' = w1" by simp_all
    with masks_advance [OF adv, of f] qk hf show ?thesis
      by (cases "advance (catching f (k r))") auto
  qed
qed

lemma masks_waiting: "masks_all fs ps qs \<Longrightarrow> waiting qs = waiting ps"
  unfolding waiting_def masks_all_def
  by (auto intro!: filter_cong dest!: masks_settled)

lemma masks_all_update:
  "masks_all fs ps qs \<Longrightarrow> j < length fs \<Longrightarrow> masks (fs ! j) p q
     \<Longrightarrow> masks_all fs (ps[j := p]) (qs[j := q])"
  by (auto simp: masks_all_def nth_list_update)

lemma masks_interleave:
  assumes "masks_all fs ps qs" and "interleave h sched ps w = (tr, order, ps', w')"
  shows "\<exists>tr2 qs'. interleave h sched qs w = (tr2, order, qs', w') \<and> masks_all fs ps' qs'
           \<and> (\<forall>i < length fs. \<forall>e. ps' ! i = Throw e
                 \<longrightarrow> ps ! i = Throw e \<or> preload_warning (fs ! i) e \<in> set tr2)"
  using assms
proof (induction sched arbitrary: ps qs w tr order ps' w')
  case Nil
  then show ?case by auto
next
  case (Cons c cs)
  show ?case
  proof (cases "waiting ps")
    case Nil
    with Cons.prems masks_waiting [OF Cons.prems(1)] show ?thesis by auto
  next
    case (Cons i rest)
    define j where "j = (i # rest) ! (c mod length (i # rest))"
    have "j \<in> set (waiting ps)"
      unfolding j_def Cons [symmetric]
      by (rule nth_mem) (simp add: Cons)
    then have jlt: "j < length fs"
      using waiting_in_range [of j ps] Cons.prems(1) by (simp add: masks_all_def)
    obtain t1 p1 w1 where res: "resume h (ps ! j) w = (t1, p1, w1)"
      by (cases "resume h (ps ! j) w")
    obtain t2 o2 ps2 w2 where rec: "interleave h cs (ps[j := p1]) w1 = (t2, o2, ps2, w2)"
      by (cases "interleave h cs (ps[j := p1]) w1")
    from Cons.prems(2) Cons res rec
    have out: "tr = t1 @ t2" "order = (if settled p1 then [j] else []) @ o2" "ps' = ps2" "w' = w2"
      by (auto simp: j_def Let_def)
    have mj: "masks (fs ! j) (ps ! j) (qs ! j)"
      using Cons.prems(1) jlt by (simp add: masks_all_def)
    from masks_resume [OF mj res]
    obtain u1 q1 where qres: "resume h (qs ! j) w = (u1, q1, w1)"
      and m1: "masks (fs ! j) p1 q1"
      and l1: "\<forall>e. p1 = Throw e \<longrightarrow> ps ! j = Throw e \<or> preload_warning (fs ! j) e \<in> set u1"
      by blast
    have m2: "masks_all fs (ps[j := p1]) (qs[j := q1])"
      using Cons.prems(1) jlt m1 by (rule masks_all_update)
    from Cons.IH [OF m2 rec]
    obtain u2 qs2 where qrec: "interleave h cs (qs[j := q1]) w1 = (u2, o2, qs2, w2)"
      and m3: "masks_all fs ps2 qs2"
      and l2: "\<forall>i < length fs. \<forall>e. ps2 ! i = Throw e
                 \<longrightarrow> (ps[j := p1]) ! i = Throw e \<or> preload_warning (fs ! i) e \<in> set u2"
      by blast
    have wq: "waiting qs = i # rest"
      using masks_waiting [OF Cons.prems(1)] Cons by simp
    have s1: "settled q1 = settled p1" using m1 by (rule masks_settled)
    have run: "interleave h (c # cs) qs w = (u1 @ u2, order, qs2, w')"
      using wq qres qrec out s1 by (simp add: j_def Let_def)
    have logged: "\<forall>i < length fs. \<forall>e. ps' ! i = Throw e
                 \<longrightarrow> ps ! i = Throw e \<or> preload_warning (fs ! i) e \<in> set (u1 @ u2)"
    proof (intro allI impI)
      fix i e
      assume i: "i < length fs" and t: "ps' ! i = Throw e"
      from l2 i t out have "(ps[j := p1]) ! i = Throw e \<or> preload_warning (fs ! i) e \<in> set u2"
        by simp
      then show "ps ! i = Throw e \<or> preload_warning (fs ! i) e \<in> set (u1 @ u2)"
      proof
        assume a: "(ps[j := p1]) ! i = Throw e"
        show ?thesis
        proof (cases "i = j")
          case True
          with a jlt Cons.prems(1) have "p1 = Throw e" by (simp add: masks_all_def)
          with l1 True show ?thesis by auto
        next
          case False
          with a show ?thesis by simp
        qed
      next
        assume "preload_warning (fs ! i) e \<in> set u2"
        then show ?thesis by simp
      qed
    qed
    from run m3 logged out show ?thesis by blast
  qed
qed

lemma run_catching:
  "run h (catching f p) w =
     (case run h p w of
        (Inl e, w', tr) \<Rightarrow> (Inr None, w', tr @ [preload_warning f e])
      | (Inr i, w', tr) \<Rightarrow> (Inr (Some i), w', tr))"
  by (simp add: catching_def run_try_catch run_bind console_warn_def preload_warning_def
      split: prod.splits sum.splits)

lemma masks_run:
  assumes "masks f p q" and "run h p w = (r, w', tr)"
  shows "\<exists>tr2. run h q w = (mask_result r, w', tr2)
           \<and> (\<forall>e. r = Inl e \<longrightarrow> p = Throw e \<or> preload_warning f e \<in> set tr2)"
  using assms
  by (auto simp: masks_def run_catching mask_result_def split: sum.splits)

lemma masks_all_Cons:
  "masks_all (f # fs) (p # ps) (q # qs) = (masks f p q \<and> masks_all fs ps qs)"
  by (auto simp: masks_all_def nth_Cons split: nat.splits)

lemma masks_all_lengths: "masks_all fs ps qs \<Longrightarrow> length ps = length fs \<and> length qs = length fs"
  by (simp add: masks_all_def)

lemma masks_finish:
  assumes "masks_all fs ps qs" and "finish h n ps w = (tr, order, rs, w')"
  shows "\<exists>tr2. finish h n qs w = (tr2, order, map mask_result rs, w')
           \<and> (\<forall>i < length fs. \<forall>e. rs ! i = Inl e
                 \<longrightarrow> ps ! i = Throw e \<or> preload_warning (fs ! i) e \<in> set tr2)"
  using assms
proof (induction ps arbitrary: fs qs n w tr order rs w')
  case Nil
  then show ?case by (auto simp: masks_all_def)
next
  case (Cons p ps)
  from masks_all_lengths [OF Cons.prems(1)]
  obtain f fs' q qs' where fs: "fs = f # fs'" and qs: "qs = q # qs'"
    by (cases fs; cases qs) auto
  from Cons.prems(1) fs qs have mp: "masks f p q" and mr: "masks_all fs' ps qs'"
    by (simp_all add: masks_all_Cons)
  obtain r w1 t1 where run: "run h p w = (r, w1, t1)" by (cases "run h p w")
  obtain t2 o2 rs2 w2 where fin: "finish h (Suc n) ps w1 = (t2, o2, rs2, w2)"
    by (cases "finish h (Suc n) ps w1")
  from Cons.prems(2) run fin
  have out: "tr = t1 @ t2" "order = (if settled p then [] else [n]) @ o2" "rs = r # rs2" "w' = w2"
    by simp_all
  from masks_run [OF mp run]
  obtain u1 where qrun: "run h q w = (mask_result r, w1, u1)"
    and l1: "\<forall>e. r = Inl e \<longrightarrow> p = Throw e \<or> preload_warning f e \<in> set u1"
    by blast
  from Cons.IH [OF mr fin]
  obtain u2 where qfin: "finish h (Suc n) qs' w1 = (u2, o2, map mask_result rs2, w2)"
    and l2: "\<forall>i < length fs'. \<forall>e. rs2 ! i = Inl e
                 \<longrightarrow> ps ! i = Throw e \<or> preload_warning (fs' ! i) e \<in> set u2"
    by blast
  have "finish h n qs w = (u1 @ u2, order, map mask_result rs, w')"
    using qs qrun qfin out masks_settled [OF mp] by simp
  moreover have "\<forall>i < length fs. \<forall>e. rs ! i = Inl e
                 \<longrightarrow> (p # ps) ! i = Throw e \<or> preload_warning (fs ! i) e \<in> set (u1 @ u2)"
  proof (intro allI impI)
    fix i e
    assume i: "i < length fs" and r: "rs ! i = Inl e"
    show "(p # ps) ! i = Throw e \<or> preload_warning (fs ! i) e \<in> set (u1 @ u2)"
    proof (cases i)
      case 0
      with r out l1 fs show ?thesis by auto
    next
      case (Suc k)
      with r out l2 fs i show ?thesis by auto
    qed
  qed
  ultimately show ?case by blast
qed

lemma interleave_length:
  "interleave h sched ps w = (tr, order, ps', w') \<Longrightarrow> length ps' = length ps"
proof (induction sched arbitrary: ps w tr order ps' w')
  case Nil
  then show ?case by simp
next
  case (Cons c cs)
  show ?case
  proof (cases "waiting ps")
    case Nil
    with Cons.prems show ?thesis by simp
  next
    case (Cons i rest)
    define j where "j = (i # rest) ! (c mod length (i # rest))"
    obtain t1 p1 w1 where res: "resume h (ps ! j) w = (t1, p1, w1)"
      by (cases "resume h (ps ! j) w")
    obtain t2 o2 ps2 w2 where rec: "interleave h cs (ps[j := p1]) w1 = (t2, o2, ps2, w2)"
      by (cases "interleave h cs (ps[j := p1]) w1")
    from Cons.prems Cons res rec have "ps' = ps2" by (auto simp: j_def Let_def)
    with Cons.IH [OF rec] show ?thesis by simp
  qed
qed

lemma finish_length: "finish h n ps w = (tr, order, rs, w') \<Longrightarrow> length rs = length ps"
  by (induction ps arbitrary: n w tr order rs w') (auto split: prod.splits)

lemma masks_settled_indices:
  "masks_all fs ps qs \<Longrightarrow>
     filter (\<lambda>i. settled (qs ! i)) [0..<length qs] = filter (\<lambda>i. settled (ps ! i)) [0..<length ps]"
  unfolding masks_all_def
  by (auto intro!: filter_cong dest!: masks_settled)

lemma run_all_catching:
  assumes "run_all h sched (map g fs) w = (rs, order, w', tr)"
  shows "\<exists>tr2. run_all h sched (map (\<lambda>f. catching f (g f)) fs) w =
                  (map mask_result rs, order, w', tr2)
           \<and> (\<forall>i < length fs. \<forall>e. rs ! i = Inl e \<longrightarrow> preload_warning (fs ! i) e \<in> set tr2)"
proof -
  define ps0 where "ps0 = map snd (map advance (map g fs))"
  define qs0 where "qs0 = map snd (map advance (map (\<lambda>f. catching f (g f)) fs))"
  define u0 where "u0 = concat (map fst (map advance (map (\<lambda>f. catching f (g f)) fs)))"
  have each: "masks (fs ! i) (ps0 ! i) (qs0 ! i)
      \<and> (\<forall>e. ps0 ! i = Throw e \<longrightarrow> preload_warning (fs ! i) e \<in> set u0)" if "i < length fs" for i
  proof -
    have adv: "advance (g (fs ! i)) = (fst (advance (g (fs ! i))), snd (advance (g (fs ! i))))"
      by simp
    have mem: "fst (advance (catching (fs ! i) (g (fs ! i))))
                 \<in> set (map fst (map advance (map (\<lambda>f. catching f (g f)) fs)))"
      using that by (auto simp: in_set_conv_nth intro!: image_eqI [where x = "fs ! i"])
    from masks_advance [OF adv, of "fs ! i"] that mem show ?thesis
      by (auto simp: ps0_def qs0_def u0_def)
  qed
  then have m0: "masks_all fs ps0 qs0"
    by (simp add: masks_all_def ps0_def qs0_def)
  obtain t1 o1 ps1 w1 where il: "interleave h sched ps0 w = (t1, o1, ps1, w1)"
    by (cases "interleave h sched ps0 w")
  obtain t2 o2 rs2 w2 where fi: "finish h 0 ps1 w1 = (t2, o2, rs2, w2)"
    by (cases "finish h 0 ps1 w1")
  from assms il fi
  have out: "rs = rs2" "w' = w2"
    "order = filter (\<lambda>i. settled (ps0 ! i)) [0..<length ps0] @ o1 @ o2"
    by (simp_all add: run_all_def Let_def ps0_def)
  from masks_interleave [OF m0 il]
  obtain u1 qs1 where qil: "interleave h sched qs0 w = (u1, o1, qs1, w1)"
    and m1: "masks_all fs ps1 qs1"
    and l1: "\<forall>i < length fs. \<forall>e. ps1 ! i = Throw e
               \<longrightarrow> ps0 ! i = Throw e \<or> preload_warning (fs ! i) e \<in> set u1"
    by blast
  from masks_finish [OF m1 fi]
  obtain u2 where qfi: "finish h 0 qs1 w1 = (u2, o2, map mask_result rs2, w2)"
    and l2: "\<forall>i < length fs. \<forall>e. rs2 ! i = Inl e
               \<longrightarrow> ps1 ! i = Throw e \<or> preload_warning (fs ! i) e \<in> set u2"
    by blast
  have "run_all h sched (map (\<lambda>f. catching f (g f)) fs) w =
          (map mask_result rs, order, w', u0 @ u1 @ u2)"
    using qil qfi out masks_settled_indices [OF m0]
    by (simp add: run_all_def Let_def qs0_def u0_def)
  moreover have "\<forall>i < length fs. \<forall>e. rs ! i = Inl e
                   \<longrightarrow> preload_warning (fs ! i) e \<in> set (u0 @ u1 @ u2)"
    using l1 l2 each out by fastforce
  ultimately show ?thesis by blast
qed

lemma run_all_length: "run_all h sched ps w = (rs, order, w', tr) \<Longrightarrow> length rs = length ps"
  by (auto simp: run_all_def Let_def split: prod.splits
      dest!: interleave_length finish_length)

lemma promise_all_masked:
  "promise_all (map mask_result rs) order =
     Inr (map (\<lambda>r. case r of Inl e \<Rightarrow> None | Inr v \<Rightarrow> Some v) rs)"
proof -
  have "List.map_filter (\<lambda>i. if i < length (map mask_result rs)
          then (case map mask_result rs ! i of Inl e \<Rightarrow> Some e | Inr v \<Rightarrow> None)
          else None) order = []"
    by (induction order) (auto simp: map_filter_simps mask_result_def split: sum.splits)
  moreover have "List.map_filter (\<lambda>r. case r of Inl e \<Rightarrow> None | Inr v \<Rightarrow> Some v)
          (map mask_result rs) = map (\<lambda>r. case r of Inl e \<Rightarrow> None | Inr v \<Rightarrow> Some v) rs"
    by (induction rs) (auto simp: map_filter_simps mask_result_def split: sum.splits)
  ultimately show ?thesis by (simp add: promise_all_def)
qed

text \<open>
  C7. Whatever the host answers and in whatever order it settles the promises,
  \<open>preloadWasmFiles\<close> resolves. Its tasks settle exactly as the bare \<open>loadWasm\<close> calls
  would under the same answers and the same order, every one of them running to its end,
  except that each failure is recorded as \<open>null\<close> and a warning with the file and the message
  of the error is logged for it.
\<close>

theorem preload_never_rejects:
  assumes "run_all h sched (map (loadWasm basePath) wasmFiles) w = (rs, order, w', tr)"
  shows "fst (preloadWasmFiles basePath h sched w) = Inr ()
       \<and> length rs = length wasmFiles
       \<and> (\<exists>tr2. run_all h sched (map (preload_task basePath) wasmFiles) w =
                   (map mask_result rs, order, w', tr2)
            \<and> preloadWasmFiles basePath h sched w =
                (Inr (), w',
                 Console LogLevel ''start preloading WASM files'' [] # tr2
                 @ [Console LogLevel ''WASM files preloaded'' []])
            \<and> (\<forall>i < length wasmFiles. \<forall>e. rs ! i = Inl e \<longrightarrow>
                  Console WarnLevel ''preload failed'' [Str (wasmFiles ! i), Str (message e)]
                    \<in> set tr2))"
proof -
  from assms have g: "run_all h sched (map (\<lambda>f. loadWasm basePath f) wasmFiles) w =
      (rs, order, w', tr)" by simp
  from run_all_catching [OF g]
  obtain tr2 where r2: "run_all h sched (map (preload_task basePath) wasmFiles) w =
                  (map mask_result rs, order, w', tr2)"
    and lg: "\<forall>i < length wasmFiles. \<forall>e. rs ! i = Inl e
               \<longrightarrow> preload_warning (wasmFiles ! i) e \<in> set tr2"
    unfolding preload_task_def by blast
  have p: "preloadWasmFiles basePath h sched w =
                (Inr (), w',
                 Console LogLevel ''start preloading WASM files'' [] # tr2
                 @ [Console LogLevel ''WASM files preloaded'' []])"
    by (simp add: preloadWasmFiles_def r2 promise_all_masked)
  have "length rs = length wasmFiles"
    using run_all_length [OF assms] by simp
  with p r2 lg show ?thesis
    unfolding preload_warning_def by auto
qed

theorem preload_never_rejects_witness:
  "fst (preloadWasmFiles ''/wasm'' (sample_host True) [1, 1, 0] half_world) = Inr ()
   \<and> fst (run_all (sample_host True) [1, 1, 0] (map (loadWasm ''/wasm'') wasmFiles) half_world) =
       [Inl (JsError ''TypeError'' ''Incorrect response''),
        Inl (JsError ''Error'' ''HTTP 404: Not Found'')]
   \<and> fst (run_all (sample_host True) [1, 1, 0] (map (preload_task ''/wasm'') wasmFiles)
          half_world) = [Inr None, Inr None]
   \<and> Console WarnLevel ''preload failed''
         [Str ''vision_wasm_nosimd_internal.wasm'', Str ''HTTP 404: Not Found'']
       \<in> set (snd (snd (preloadWasmFiles ''/wasm'' (sample_host True) [1, 1, 0] half_world)))"
proof -
  let ?X = "run_all (sample_host True) [1, 1, 0] (map (loadWasm ''/wasm'') wasmFiles) half_world"
  have hyp: "?X = (fst ?X, fst (snd ?X), fst (snd (snd ?X)), snd (snd (snd ?X)))" by simp
  have rs: "fst ?X = [Inl (JsError ''TypeError'' ''Incorrect response''),
                      Inl (JsError ''Error'' ''HTTP 404: Not Found'')]"
    by code_simp
  from preload_never_rejects [OF hyp]
  obtain tr2 where ok: "fst (preloadWasmFiles ''/wasm'' (sample_host True) [1, 1, 0] half_world)
        = Inr ()"
    and r2: "run_all (sample_host True) [1, 1, 0] (map (preload_task ''/wasm'') wasmFiles)
        half_world = (map mask_result (fst ?X), fst (snd ?X), fst (snd (snd ?X)), tr2)"
    and p: "preloadWasmFiles ''/wasm'' (sample_host True) [1, 1, 0] half_world =
        (Inr (), fst (snd (snd ?X)),
         Console LogLevel ''start preloading WASM files'' [] # tr2
         @ [Console LogLevel ''WASM files preloaded'' []])"
    and lg: "\<forall>i < length wasmFiles. \<forall>e. fst ?X ! i = Inl e \<longrightarrow>
        Console WarnLevel ''preload failed'' [Str (wasmFiles ! i), Str (message e)] \<in> set tr2"
    by blast
  from lg [rule_format, of 1 "JsError ''Error'' ''HTTP 404: Not Found''"] rs
  have "Console WarnLevel ''preload failed''
          [Str ''vision_wasm_nosimd_internal.wasm'', Str ''HTTP 404: Not Found''] \<in> set tr2"
    by (simp add: wasmFiles_def)
  with ok r2 p rs show ?thesis by (simp add: mask_result_def)
qed

section \<open>The fixed lists of files\<close>

lemma fetched_quiet_action: "\<forall>req. a \<noteq> Fetch req \<Longrightarrow> fetched (a # tr) = fetched tr"
  by (cases a) auto

lemma quiet_advance:
  "quiet p \<Longrightarrow> fetched (fst (advance p)) = [] \<and> quiet (snd (advance p))"
  by (induction p) (auto split: prod.splits action.splits)

lemma quiet_resume:
  "quiet p \<Longrightarrow> resume h p w = (tr, p', w') \<Longrightarrow> fetched tr = [] \<and> quiet p'"
proof (cases p)
  case (Act a p0)
  assume "quiet p" "resume h p w = (tr, p', w')"
  with Act quiet_advance [of p] show ?thesis by (auto split: prod.splits)
next
  case (AwaitFetch req k)
  assume q: "quiet p" and r: "resume h p w = (tr, p', w')"
  obtain x w1 where hf: "host_fetch h req w = (x, w1)" by (cases "host_fetch h req w")
  from q AwaitFetch have "quiet (k x)" by simp
  from quiet_advance [OF this] r AwaitFetch hf show ?thesis by (auto split: prod.splits)
next
  case (AwaitInstantiateStreaming resp imp k)
  assume q: "quiet p" and r: "resume h p w = (tr, p', w')"
  obtain x w1 where hf: "host_instantiateStreaming h resp imp w = (x, w1)"
    by (cases "host_instantiateStreaming h resp imp w")
  from q AwaitInstantiateStreaming have "quiet (k x)" by simp
  from quiet_advance [OF this] r AwaitInstantiateStreaming hf show ?thesis
    by (auto split: prod.splits)
next
  case (AwaitArrayBuffer resp k)
  assume q: "quiet p" and r: "resume h p w = (tr, p', w')"
  obtain x w1 where hf: "host_arrayBuffer h resp w = (x, w1)"
    by (cases "host_arrayBuffer h resp w")
  from q AwaitArrayBuffer have "quiet (k x)" by simp
  from quiet_advance [OF this] r AwaitArrayBuffer hf show ?thesis by (auto split: prod.splits)
next
  case (AwaitInstantiate buf imp k)
  assume q: "quiet p" and r: "resume h p w = (tr, p', w')"
  obtain x w1 where hf: "host_instantiate h buf imp w = (x, w1)"
    by (cases "host_instantiate h buf imp w")
  from q AwaitInstantiate have "quiet (k x)" by simp
  from quiet_advance [OF this] r AwaitInstantiate hf show ?thesis by (auto split: prod.splits)
qed auto

lemma quiet_run: "quiet p \<Longrightarrow> fetched (snd (snd (run h p w))) = []"
proof (induction p arbitrary: w)
  case (Act a p)
  obtain r w1 tr where run: "run h p w = (r, w1, tr)" by (cases "run h p w")
  have "fetched tr = []" using Act.IH [of w] Act.prems run by simp
  moreover have "fetched (a # tr) = fetched tr"
    using Act.prems by (intro fetched_quiet_action) simp
  ultimately show ?case using run by simp
qed (auto split: prod.splits)

lemma quiet_interleave:
  assumes "\<forall>p \<in> set ps. quiet p" and "interleave h sched ps w = (tr, order, ps', w')"
  shows "fetched tr = [] \<and> (\<forall>p \<in> set ps'. quiet p)"
  using assms
proof (induction sched arbitrary: ps w tr order ps' w')
  case Nil
  then show ?case by simp
next
  case (Cons c cs)
  show ?case
  proof (cases "waiting ps")
    case Nil
    with Cons.prems show ?thesis by simp
  next
    case (Cons i rest)
    define j where "j = (i # rest) ! (c mod length (i # rest))"
    have "j \<in> set (waiting ps)"
      unfolding j_def Cons [symmetric]
      by (rule nth_mem) (simp add: Cons)
    then have jlt: "j < length ps" by (rule waiting_in_range)
    obtain t1 p1 w1 where res: "resume h (ps ! j) w = (t1, p1, w1)"
      by (cases "resume h (ps ! j) w")
    obtain t2 o2 ps2 w2 where rec: "interleave h cs (ps[j := p1]) w1 = (t2, o2, ps2, w2)"
      by (cases "interleave h cs (ps[j := p1]) w1")
    from Cons.prems(2) Cons res rec have out: "tr = t1 @ t2" "ps' = ps2"
      by (auto simp: j_def Let_def)
    have "quiet (ps ! j)" using Cons.prems(1) jlt by simp
    from quiet_resume [OF this res] have q1: "fetched t1 = []" "quiet p1" by simp_all
    have "\<forall>p \<in> set (ps[j := p1]). quiet p"
      using Cons.prems(1) q1(2) set_update_subset_insert [of ps j p1] by auto
    from Cons.IH [OF this rec] q1 out show ?thesis by (simp add: fetched_append)
  qed
qed

lemma quiet_finish:
  "\<forall>p \<in> set ps. quiet p \<Longrightarrow> finish h n ps w = (tr, order, rs, w') \<Longrightarrow> fetched tr = []"
proof (induction ps arbitrary: n w tr order rs w')
  case Nil
  then show ?case by simp
next
  case (Cons p ps)
  obtain r w1 t1 where run: "run h p w = (r, w1, t1)" by (cases "run h p w")
  obtain t2 o2 rs2 w2 where fin: "finish h (Suc n) ps w1 = (t2, o2, rs2, w2)"
    by (cases "finish h (Suc n) ps w1")
  from Cons.prems(2) run fin have out: "tr = t1 @ t2" by simp
  have "fetched t1 = []" using quiet_run [of p h w] Cons.prems(1) run by simp
  moreover have "fetched t2 = []" using Cons.IH [OF _ fin] Cons.prems(1) by simp
  ultimately show ?case using out by (simp add: fetched_append)
qed

lemma run_all_fetched:
  assumes "\<forall>p \<in> set ps. quiet (snd (advance p))"
  shows "fetched (snd (snd (snd (run_all h sched ps w)))) =
           fetched (concat (map fst (map advance ps)))"
proof -
  obtain t1 o1 ps1 w1 where il: "interleave h sched (map snd (map advance ps)) w = (t1, o1, ps1, w1)"
    by (cases "interleave h sched (map snd (map advance ps)) w")
  obtain t2 o2 rs2 w2 where fi: "finish h 0 ps1 w1 = (t2, o2, rs2, w2)"
    by (cases "finish h 0 ps1 w1")
  have q0: "\<forall>p \<in> set (map snd (map advance ps)). quiet p" using assms by auto
  from quiet_interleave [OF q0 il] have q1: "fetched t1 = []" "\<forall>p \<in> set ps1. quiet p"
    by simp_all
  from quiet_finish [OF q1(2) fi] have "fetched t2 = []" .
  with q1(1) il fi show ?thesis
    by (simp add: run_all_def Let_def fetched_append del: map_map)
qed

lemma preload_task_start:
  "fst (advance (preload_task basePath f)) =
     [Console LogLevel ''start loading WASM file'' [Str (basePath @ ''/'' @ f)],
      Fetch (load_request basePath f)]
   \<and> quiet (snd (advance (preload_task basePath f)))"
  by (simp add: preload_task_def catching_def loadWasm_def Let_def prims load_request_def
      split_sum_all)

text \<open>
  C10. Neither operation takes filenames. Every run of \<open>preloadWasmFiles\<close> requests
  exactly \<open>vision_wasm_internal.wasm\<close> and \<open>vision_wasm_nosimd_internal.wasm\<close> under the
  base path. Every run of \<open>validateWasmFiles\<close> checks \<open>vision_wasm_internal.wasm\<close> and
  then, when that check passed, \<open>vision_wasm_internal.js\<close>, and nothing else.
\<close>

theorem fixed_file_lists:
  "fetched (snd (snd (preloadWasmFiles basePath h sched w))) =
     [load_request basePath ''vision_wasm_internal.wasm'',
      load_request basePath ''vision_wasm_nosimd_internal.wasm'']
   \<and> fetched (snd (snd (run h (validateWasmFiles basePath) w))) =
       head_request basePath ''vision_wasm_internal.wasm''
       # (if passes h basePath ''vision_wasm_internal.wasm'' w
          then [head_request basePath ''vision_wasm_internal.js''] else [])"
proof
  have "\<forall>p \<in> set (map (preload_task basePath) wasmFiles). quiet (snd (advance p))"
    by (simp add: preload_task_start)
  from run_all_fetched [OF this, of h sched w]
  have "fetched (snd (snd (snd (run_all h sched (map (preload_task basePath) wasmFiles) w)))) =
          [load_request basePath ''vision_wasm_internal.wasm'',
           load_request basePath ''vision_wasm_nosimd_internal.wasm'']"
    by (simp add: wasmFiles_def preload_task_start)
  then show "fetched (snd (snd (preloadWasmFiles basePath h sched w))) =
     [load_request basePath ''vision_wasm_internal.wasm'',
      load_request basePath ''vision_wasm_nosimd_internal.wasm'']"
    by (auto simp: preloadWasmFiles_def fetched_append split: prod.splits sum.splits)
next
  obtain r w1 tr where run: "run h (validate_loop basePath testFiles) w = (r, w1, tr)"
    by (cases "run h (validate_loop basePath testFiles) w")
  from validate_loop_run [of h basePath testFiles w] run
  have tr: "fetched tr = map (head_request basePath) (checked h basePath testFiles w)"
    by simp
  have "fetched (snd (snd (run h (validateWasmFiles basePath) w))) = fetched tr"
    using run by (auto simp: validateWasmFiles_def run_bind console_log_def fetched_append
        split: option.splits prod.splits sum.splits)
  with tr show "fetched (snd (snd (run h (validateWasmFiles basePath) w))) =
       head_request basePath ''vision_wasm_internal.wasm''
       # (if passes h basePath ''vision_wasm_internal.wasm'' w
          then [head_request basePath ''vision_wasm_internal.js''] else [])"
    by (simp add: testFiles_def)
qed

theorem fixed_file_lists_witness:
  "fetched (snd (snd (preloadWasmFiles ''/wasm'' (sample_host True) [1, 1, 0] half_world))) =
     [\<lparr>req_url = ''/wasm/vision_wasm_internal.wasm'', req_method = GET,
        req_accept = Some ''application/wasm''\<rparr>,
      \<lparr>req_url = ''/wasm/vision_wasm_nosimd_internal.wasm'', req_method = GET,
        req_accept = Some ''application/wasm''\<rparr>]
   \<and> fetched (snd (snd (run (sample_host True) (validateWasmFiles ''/wasm'') half_world))) =
       [\<lparr>req_url = ''/wasm/vision_wasm_internal.wasm'', req_method = HEAD, req_accept = None\<rparr>]
   \<and> fetched (snd (snd (run (sample_host True) (validateWasmFiles ''/wasm'') good_world))) =
       [\<lparr>req_url = ''/wasm/vision_wasm_internal.wasm'', req_method = HEAD, req_accept = None\<rparr>,
        \<lparr>req_url = ''/wasm/vision_wasm_internal.js'', req_method = HEAD, req_accept = None\<rparr>]"
  using fixed_file_lists [of "''/wasm''" "sample_host True" "[1, 1, 0]" half_world]
    fixed_file_lists [of "''/wasm''" "sample_host True" "[1, 1, 0]" good_world]
  by (simp add: load_request_def head_request_def passes_def sample_defs half_world_def)

end
